theory Spec2Isabelle
  imports
    Complex_Main
    "HOL-Library.Sublist"
    "HOL-Library.AList"
    "HOL-Library.Char_ord"
    "HOL-Library.List_Lexorder"
begin

section \<open>Strings and Python errors\<close>

text \<open>
  Strings are \<^typ>\<open>string\<close> (lists of 8-bit characters), ordered lexicographically by
  character code as Python orders \<^verbatim>\<open>str\<close>. Python's \<^verbatim>\<open>a in b\<close> on strings is
  \<^const>\<open>sublist\<close> (a contiguous run), \<^verbatim>\<open>b.startswith(a)\<close> is \<^const>\<open>prefix\<close>.
  \<^verbatim>\<open>str.lower()\<close> is modelled on ASCII: the letters A to Z get bit 5 set, every other
  character is kept.
\<close>

datatype py_error = KeyError | OSError | AttributeError | TypeError | RecursionError

fun char_lower :: "char \<Rightarrow> char" where
  "char_lower (Char b0 b1 b2 b3 b4 b5 b6 b7) =
     (if CHR ''A'' \<le> Char b0 b1 b2 b3 b4 b5 b6 b7 \<and> Char b0 b1 b2 b3 b4 b5 b6 b7 \<le> CHR ''Z''
      then Char b0 b1 b2 b3 b4 True b6 b7
      else Char b0 b1 b2 b3 b4 b5 b6 b7)"

definition lower :: "string \<Rightarrow> string" where
  "lower s = map char_lower s"

section \<open>The pricing table (\<^verbatim>\<open>MODEL_PRICING\<close>, \<^verbatim>\<open>get_pricing\<close>)\<close>

text \<open>
  Rates are currency per token. The source writes them as floating-point quotients
  (\<^verbatim>\<open>6.25 / 1e6\<close>); here they are the exact rationals, and every cost below is exact
  rational arithmetic: rounding of IEEE doubles is not modelled.
\<close>

record pricing =
  pr_input :: rat
  pr_output :: rat
  pr_cacheWrite :: rat
  pr_cacheRead :: rat

definition MODEL_PRICING :: "(string \<times> pricing) list" where
  "MODEL_PRICING =
    [(''opus-4.5'', \<lparr>pr_input = 5 / 1000000, pr_output = 25 / 1000000,
                    pr_cacheWrite = 6.25 / 1000000, pr_cacheRead = 0.50 / 1000000\<rparr>),
     (''opus-4.6'', \<lparr>pr_input = 5 / 1000000, pr_output = 25 / 1000000,
                    pr_cacheWrite = 6.25 / 1000000, pr_cacheRead = 0.50 / 1000000\<rparr>),
     (''opus-4.0'', \<lparr>pr_input = 15 / 1000000, pr_output = 75 / 1000000,
                    pr_cacheWrite = 18.75 / 1000000, pr_cacheRead = 1.50 / 1000000\<rparr>),
     (''opus-4.1'', \<lparr>pr_input = 15 / 1000000, pr_output = 75 / 1000000,
                    pr_cacheWrite = 18.75 / 1000000, pr_cacheRead = 1.50 / 1000000\<rparr>),
     (''sonnet'', \<lparr>pr_input = 3 / 1000000, pr_output = 15 / 1000000,
                  pr_cacheWrite = 3.75 / 1000000, pr_cacheRead = 0.30 / 1000000\<rparr>),
     (''haiku-4.5'', \<lparr>pr_input = 1 / 1000000, pr_output = 5 / 1000000,
                     pr_cacheWrite = 1.25 / 1000000, pr_cacheRead = 0.10 / 1000000\<rparr>),
     (''haiku-3.5'', \<lparr>pr_input = 0.80 / 1000000, pr_output = 4 / 1000000,
                     pr_cacheWrite = 1.00 / 1000000, pr_cacheRead = 0.08 / 1000000\<rparr>)]"

text \<open>\<^verbatim>\<open>MODEL_PRICING[key]\<close>: a dictionary subscript, which raises KeyError on a missing key.\<close>

definition pricing_entry :: "string \<Rightarrow> py_error + pricing" where
  "pricing_entry key = (case map_of MODEL_PRICING key of None \<Rightarrow> Inl KeyError | Some p \<Rightarrow> Inr p)"

text \<open>
  \<^verbatim>\<open>get_pricing(model)\<close>. The argument is \<^verbatim>\<open>str | None\<close>; \<^verbatim>\<open>not model\<close> holds for
  \<^verbatim>\<open>None\<close> and for the empty string.
\<close>

definition get_pricing :: "string option \<Rightarrow> py_error + pricing" where
  "get_pricing model =
    (case model of
       None \<Rightarrow> pricing_entry ''sonnet''
     | Some s \<Rightarrow>
        if s = [] then pricing_entry ''sonnet''
        else
          let m = lower s in
          if sublist ''opus'' m then
            (if sublist ''4-6'' m \<or> sublist ''4.6'' m then pricing_entry ''opus-4.6''
             else if sublist ''4-5'' m \<or> sublist ''4.5'' m then pricing_entry ''opus-4.5''
             else if sublist ''4-1'' m \<or> sublist ''4.1'' m then pricing_entry ''opus-4.1''
             else pricing_entry ''opus-4.0'')
          else if sublist ''sonnet'' m then pricing_entry ''sonnet''
          else if sublist ''haiku'' m then
            (if sublist ''4-5'' m \<or> sublist ''4.5'' m then pricing_entry ''haiku-4.5''
             else pricing_entry ''haiku-3.5'')
          else pricing_entry ''sonnet'')"

section \<open>Log records\<close>

text \<open>
  One line of a session file, once parsed, is a JSON object. The model keeps the keys the
  code reads, each with the JSON type the code expects of it: a record is typed. A key
  that is absent is \<^const>\<open>None\<close>. The flags \<^verbatim>\<open>isSidechain\<close> and \<^verbatim>\<open>isMeta\<close> are only
  tested for truth, so they are booleans. A dictionary whose key order or emptiness
  matters is an association list.

  A value of another JSON type than the code expects (a \<^verbatim>\<open>null\<close> or a number where a
  string, an integer or an object is read) is not a value of these types. On such a value
  the code raises \<^verbatim>\<open>TypeError\<close> or \<^verbatim>\<open>AttributeError\<close>. Where that happens inside
  \<^verbatim>\<open>parse_jsonl_file\<close> the model has the case (the lines \<open>NotObject\<close>,
  \<open>MessageNotObject\<close> and \<open>UnhashableId\<close> below); inside \<^verbatim>\<open>extract_session_data\<close> and the aggregation,
  whose exceptions nothing catches, it has not: the functions below model the code on
  typed records, where these do not raise.
\<close>

record block =
  b_type :: "string option"
  b_text :: "string option"
  b_name :: "string option"

datatype content = ContentStr string | ContentList "block list" | ContentOther

text \<open>
  A message identity is a string. (An identity that is a number or a boolean would be a
  dictionary key like any other; it is not a value of this type. An identity that is a
  non-empty array or object cannot be a key: the line \<open>UnhashableId\<close> below.)
\<close>

record message =
  m_role :: "string option"
  m_id :: "string option"
  m_model :: "string option"
  m_usage :: "(string \<times> int) list option"
  m_content :: content

text \<open>
  \<^verbatim>\<open>e_message\<close> is \<^const>\<open>None\<close> when the key is absent or its value is the empty
  object. (\<^verbatim>\<open>parse_jsonl_file\<close> skips every record whose message is falsy, so for it
  \<^const>\<open>None\<close> stands for any falsy message.)
\<close>

record entry =
  e_isSidechain :: bool
  e_isMeta :: bool
  e_type :: "string option"
  e_message :: "message option"
  e_timestamp :: "string option"
  e_uuid :: "string option"

text \<open>
  A line of the file:
  \<^item> \<open>Blank\<close>: empty after \<^verbatim>\<open>strip()\<close>;
  \<^item> \<open>Malformed\<close>: not valid JSON, \<^verbatim>\<open>json.loads\<close> raises \<^verbatim>\<open>JSONDecodeError\<close> and the
    line is skipped;
  \<^item> \<open>TooDeep\<close>: arrays or objects nested deeper than the interpreter's recursion limit,
    \<^verbatim>\<open>json.loads\<close> raises \<^verbatim>\<open>RecursionError\<close>, which is not a \<^verbatim>\<open>ValueError\<close>;
  \<^item> \<open>NotObject\<close>: valid JSON that is not an object (a number, a string, an array,
    \<^verbatim>\<open>true\<close>, \<^verbatim>\<open>null\<close>);
  \<^item> \<open>MessageNotObject\<close>: an object whose message is truthy and not an object (a
    non-empty string or array, a non-zero number, \<^verbatim>\<open>true\<close>), with the truth of its
    \<^verbatim>\<open>isSidechain\<close> and its type, which the loop reads first;
  \<^item> \<open>UnhashableId\<close>: an object of type \<^verbatim>\<open>assistant\<close> whose message is an object with an
    identity that is a non-empty array or object, with the truth of its \<^verbatim>\<open>isSidechain\<close>;
  \<^item> \<open>Parsed\<close>: a typed record.
\<close>

datatype jsonl_line =
    Blank
  | Malformed
  | TooDeep
  | NotObject
  | MessageNotObject bool "string option"
  | UnhashableId bool
  | Parsed entry

record parsed_file =
  assistantEntries :: "entry list"
  userMessages :: "entry list"

section \<open>The record parser (\<^verbatim>\<open>parse_jsonl_file\<close>)\<close>

text \<open>
  The body of the loop over the lines. The state is \<^verbatim>\<open>message_map\<close>, an
  insertion-ordered dictionary (\<^const>\<open>AList.update\<close> overwrites a present key in place
  and appends a new one), and \<^verbatim>\<open>user_messages\<close>. The loop catches \<^verbatim>\<open>ValueError\<close>
  around \<^verbatim>\<open>json.loads\<close> and nothing else. On a line that is not an object
  \<^verbatim>\<open>entry.get\<close> raises \<^verbatim>\<open>AttributeError\<close>; on a message that is not an object
  \<^verbatim>\<open>msg.get\<close> raises it, once the record has passed the tests on \<^verbatim>\<open>isSidechain\<close> and
  on the type; on an identity that cannot be hashed \<^verbatim>\<open>message_map[msg["id"]] = entry\<close>
  raises \<^verbatim>\<open>TypeError\<close>.
\<close>

fun parse_line :: "(string \<times> entry) list \<times> entry list \<Rightarrow> jsonl_line \<Rightarrow> py_error + (string \<times> entry) list \<times> entry list" where
  "parse_line st Blank = Inr st"
| "parse_line st Malformed = Inr st"
| "parse_line st TooDeep = Inl RecursionError"
| "parse_line st NotObject = Inl AttributeError"
| "parse_line st (UnhashableId is_sidechain) =
     (if is_sidechain then Inr st else Inl TypeError)"
| "parse_line st (MessageNotObject is_sidechain entry_type) =
     (if is_sidechain then Inr st
      else if entry_type \<noteq> Some ''user'' \<and> entry_type \<noteq> Some ''assistant'' then Inr st
      else Inl AttributeError)"
| "parse_line (message_map, user_messages) (Parsed e) =
     (if e_isSidechain e then Inr (message_map, user_messages)
      else if e_type e \<noteq> Some ''user'' \<and> e_type e \<noteq> Some ''assistant''
      then Inr (message_map, user_messages)
      else
        (case e_message e of
           None \<Rightarrow> Inr (message_map, user_messages)
         | Some msg \<Rightarrow>
             let user_messages' =
                   (if e_type e = Some ''user'' \<and> m_role msg = Some ''user''
                    then user_messages @ [e] else user_messages);
                 message_map' =
                   (case m_id msg of
                      None \<Rightarrow> message_map
                    | Some i \<Rightarrow>
                        if e_type e = Some ''assistant'' \<and> i \<noteq> []
                        then AList.update i e message_map else message_map)
             in Inr (message_map', user_messages')))"

text \<open>The loop over the lines: it ends at the first line that raises.\<close>

fun parse_lines :: "(string \<times> entry) list \<times> entry list \<Rightarrow> jsonl_line list \<Rightarrow> py_error + (string \<times> entry) list \<times> entry list" where
  "parse_lines st [] = Inr st"
| "parse_lines st (line # lines) =
     (case parse_line st line of
        Inl err \<Rightarrow> Inl err
      | Inr st' \<Rightarrow> parse_lines st' lines)"

text \<open>
  \<^verbatim>\<open>parse_jsonl_file\<close>: the file is its list of lines, or \<^const>\<open>None\<close> when \<^verbatim>\<open>open\<close>
  raises. The result lists \<^verbatim>\<open>message_map.values()\<close>.
\<close>

definition parse_jsonl_file :: "jsonl_line list option \<Rightarrow> py_error + parsed_file" where
  "parse_jsonl_file file =
     (case file of
        None \<Rightarrow> Inl OSError
      | Some lines \<Rightarrow>
          (case parse_lines ([], []) lines of
             Inl err \<Rightarrow> Inl err
           | Inr (message_map, user_messages) \<Rightarrow>
               Inr \<lparr>assistantEntries = map snd message_map, userMessages = user_messages\<rparr>))"

section \<open>The query extractor (\<^verbatim>\<open>extract_session_data\<close>)\<close>

record user_turn =
  u_text :: "string option"
  u_timestamp :: "string option"
  u_uuid :: "string option"

record query =
  q_messageId :: "string option"
  q_userPrompt :: "string option"
  q_userTimestamp :: "string option"
  q_assistantTimestamp :: "string option"
  q_model :: string
  q_inputTokens :: int
  q_cacheCreationTokens :: int
  q_cacheReadTokens :: int
  q_outputTokens :: int
  q_totalTokens :: int
  q_cost :: rat
  q_tools :: "string list"
  q_hasThinking :: bool

text \<open>\<^verbatim>\<open>str.strip()\<close> and \<^verbatim>\<open>sep.join(parts)\<close>, on ASCII white space.\<close>

definition is_space :: "char \<Rightarrow> bool" where
  "is_space c \<longleftrightarrow>
     (CHR 0x09 \<le> c \<and> c \<le> CHR 0x0D) \<or> (CHR 0x1C \<le> c \<and> c \<le> CHR 0x1F) \<or> c = CHR '' ''"

definition strip :: "string \<Rightarrow> string" where
  "strip s = rev (dropWhile is_space (rev (dropWhile is_space s)))"

fun join :: "string \<Rightarrow> string list \<Rightarrow> string" where
  "join sep [] = []"
| "join sep [x] = x"
| "join sep (x # y # ys) = x @ sep @ join sep (y # ys)"

text \<open>A string or \<^verbatim>\<open>None\<close> is truthy when it is a non-empty string.\<close>

fun truthy :: "string option \<Rightarrow> bool" where
  "truthy None = False"
| "truthy (Some s) = (s \<noteq> [])"

text \<open>The display-eligibility filter that builds \<^verbatim>\<open>user_timeline\<close>.\<close>

definition message_content :: "entry \<Rightarrow> content" where
  "message_content e = (case e_message e of None \<Rightarrow> ContentOther | Some msg \<Rightarrow> m_content msg)"

text \<open>
  The texts joined for a list content: \<^verbatim>\<open>b.get("text", "")\<close> of the blocks of type
  \<^verbatim>\<open>text\<close>, where an absent text is the empty string.
\<close>

definition block_texts :: "block list \<Rightarrow> string list" where
  "block_texts bs =
     map (\<lambda>b. case b_text b of None \<Rightarrow> [] | Some t \<Rightarrow> t) (filter (\<lambda>b. b_type b = Some ''text'') bs)"

fun user_timeline :: "entry list \<Rightarrow> user_turn list" where
  "user_timeline [] = []"
| "user_timeline (e # es) =
     (if e_isMeta e then user_timeline es
      else
        (case message_content e of
           ContentStr s \<Rightarrow>
             if prefix ''<local-command'' s \<or> prefix ''<command-name'' s then user_timeline es
             else \<lparr>u_text = (if s = [] then None else Some s),
                   u_timestamp = e_timestamp e, u_uuid = e_uuid e\<rparr> # user_timeline es
         | ContentList bs \<Rightarrow>
             (let text = strip (join [CHR 0x0A] (block_texts bs))
              in \<lparr>u_text = (if text = [] then None else Some text),
                    u_timestamp = e_timestamp e, u_uuid = e_uuid e\<rparr>) # user_timeline es
         | ContentOther \<Rightarrow>
             \<lparr>u_text = None, u_timestamp = e_timestamp e, u_uuid = e_uuid e\<rparr> # user_timeline es))"

text \<open>
  The cursor: the \<^verbatim>\<open>while\<close> loop that advances \<^verbatim>\<open>user_idx\<close> while the next turn of
  the timeline has a timestamp, the assistant record has one, and the next turn's is not
  after the assistant's.
\<close>

definition next_not_after :: "user_turn list \<Rightarrow> string option \<Rightarrow> nat \<Rightarrow> bool" where
  "next_not_after timeline ts user_idx \<longleftrightarrow>
     int user_idx < int (length timeline) - 1 \<and>
     (case u_timestamp (timeline ! (user_idx + 1)) of
        None \<Rightarrow> False
      | Some tu \<Rightarrow> (case ts of None \<Rightarrow> False | Some ta \<Rightarrow> tu \<le> ta))"

function advance :: "user_turn list \<Rightarrow> string option \<Rightarrow> nat \<Rightarrow> nat" where
  "advance timeline ts user_idx =
     (if next_not_after timeline ts user_idx then advance timeline ts (user_idx + 1) else user_idx)"
  by pat_completeness auto
termination
  by (relation "measure (\<lambda>(timeline, ts, user_idx). length timeline - user_idx)")
     (auto simp: next_not_after_def)

declare advance.simps [simp del]

definition dict_get :: "(string \<times> int) list \<Rightarrow> string \<Rightarrow> int \<Rightarrow> int" where
  "dict_get d k dflt = (case map_of d k of None \<Rightarrow> dflt | Some v \<Rightarrow> v)"

definition block_tools :: "content \<Rightarrow> string list" where
  "block_tools c =
     (case c of
        ContentList bs \<Rightarrow>
          map (\<lambda>b. case b_name b of None \<Rightarrow> [] | Some n \<Rightarrow> n)
            (filter (\<lambda>b. b_type b = Some ''tool_use'' \<and> truthy (b_name b)) bs)
      | _ \<Rightarrow> [])"

definition block_thinking :: "content \<Rightarrow> bool" where
  "block_thinking c =
     (case c of ContentList bs \<Rightarrow> list_ex (\<lambda>b. b_type b = Some ''thinking'') bs | _ \<Rightarrow> False)"

text \<open>
  The query built for one assistant record, given the turn it is paired with. The rates
  are those of \<^const>\<open>get_pricing\<close>, which never fails (\<open>get_pricing_total\<close> below).
\<close>

definition make_query :: "entry \<Rightarrow> (string \<times> int) list \<Rightarrow> string \<Rightarrow> user_turn option \<Rightarrow> query" where
  "make_query entry usage model user_msg =
     (let pricing = projr (get_pricing (Some model));
          input_tokens = dict_get usage ''input_tokens'' 0;
          cache_creation_tokens = dict_get usage ''cache_creation_input_tokens'' 0;
          cache_read_tokens = dict_get usage ''cache_read_input_tokens'' 0;
          output_tokens = dict_get usage ''output_tokens'' 0;
          total_tokens = input_tokens + cache_creation_tokens + cache_read_tokens + output_tokens;
          cost = of_int input_tokens * pr_input pricing
               + of_int cache_creation_tokens * pr_cacheWrite pricing
               + of_int cache_read_tokens * pr_cacheRead pricing
               + of_int output_tokens * pr_output pricing
      in \<lparr>q_messageId = (case e_message entry of None \<Rightarrow> None | Some msg \<Rightarrow> m_id msg),
           q_userPrompt = (case user_msg of None \<Rightarrow> None | Some u \<Rightarrow> u_text u),
           q_userTimestamp = (case user_msg of None \<Rightarrow> None | Some u \<Rightarrow> u_timestamp u),
           q_assistantTimestamp = e_timestamp entry,
           q_model = model,
           q_inputTokens = input_tokens,
           q_cacheCreationTokens = cache_creation_tokens,
           q_cacheReadTokens = cache_read_tokens,
           q_outputTokens = output_tokens,
           q_totalTokens = total_tokens,
           q_cost = cost,
           q_tools = block_tools (message_content entry),
           q_hasThinking = block_thinking (message_content entry)\<rparr>)"

text \<open>
  What the loop reads of an assistant record before pairing: its usage and model, or
  \<^const>\<open>None\<close> when the record is skipped (no usage, or the synthetic model).
\<close>

definition usage_and_model :: "entry \<Rightarrow> ((string \<times> int) list \<times> string) option" where
  "usage_and_model entry =
     (let usage = (case e_message entry of None \<Rightarrow> None | Some msg \<Rightarrow> m_usage msg);
          model = (case e_message entry of
                     None \<Rightarrow> ''unknown''
                   | Some msg \<Rightarrow> (case m_model msg of None \<Rightarrow> ''unknown'' | Some m \<Rightarrow> m))
      in case usage of
           None \<Rightarrow> None
         | Some u \<Rightarrow> if u = [] then None else if model = ''<synthetic>'' then None else Some (u, model))"

text \<open>The loop over the assistant records, threading \<^verbatim>\<open>user_idx\<close>.\<close>

fun pair_loop :: "user_turn list \<Rightarrow> nat \<Rightarrow> entry list \<Rightarrow> query list" where
  "pair_loop timeline user_idx [] = []"
| "pair_loop timeline user_idx (entry # entries) =
     (case usage_and_model entry of
        None \<Rightarrow> pair_loop timeline user_idx entries
      | Some (usage, model) \<Rightarrow>
          let user_idx' = advance timeline (e_timestamp entry) user_idx;
              user_msg = (if user_idx' < length timeline then Some (timeline ! user_idx') else None)
          in make_query entry usage model user_msg # pair_loop timeline user_idx' entries)"

definition extract_session_data :: "entry list \<Rightarrow> entry list \<Rightarrow> query list" where
  "extract_session_data assistant_entries user_messages =
     pair_loop (user_timeline user_messages) 0 assistant_entries"

section \<open>The file system and the incremental cache\<close>

text \<open>
  What a scan reads of a session file: its path as a string, the stem and suffix of its
  name (as \<^verbatim>\<open>pathlib\<close> gives them), the result of \<^verbatim>\<open>os.stat\<close> (modification time in
  nanoseconds and size, or \<^const>\<open>None\<close> when it raises) and its lines (\<^const>\<open>None\<close> when
  \<^verbatim>\<open>open\<close> raises).
\<close>

record session_file =
  f_path :: string
  f_stem :: string
  f_suffix :: string
  f_stat :: "(int \<times> int) option"
  f_lines :: "jsonl_line list option"

text \<open>
  An entry of the projects directory: its name, whether it is a directory, and its own
  entries (\<^const>\<open>None\<close> when \<^verbatim>\<open>iterdir\<close> raises).
\<close>

record dir_entry =
  dir_name :: string
  dir_is_dir :: bool
  dir_files :: "session_file list option"

datatype projects_dir = Absent | Unlistable | Listing "dir_entry list"

text \<open>
  The environment of a scan: the projects directory; the prompt index
  \<^verbatim>\<open>session_first_prompt\<close> as read from \<^verbatim>\<open>history.jsonl\<close> (session identity to display
  text; empty when the file is absent or unreadable); the persisted cache file; and
  whether writing the cache file succeeds (\<^verbatim>\<open>_save_cache\<close> swallows the failure).
  The cache file is \<^const>\<open>None\<close> when it is missing, unreadable or not valid JSON
  (\<^verbatim>\<open>_load_cache\<close> then returns the empty dictionary), and else the object it holds,
  from fingerprints to query lists, as a scan writes it: a cache written by
  \<^verbatim>\<open>json.dumps\<close> reads back unchanged. A cache file that holds other JSON (\<^verbatim>\<open>null\<close>, a
  number, values that are not query lists) is not a value of this type; on it the lookup
  \<^verbatim>\<open>ck in cache\<close> or the aggregation raises (the lookup is modelled apart, as
  \<open>cache_test\<close> below).
\<close>

record env =
  projects_dir :: projects_dir
  session_first_prompt :: "(string \<times> string) list"
  cache_file :: "(string \<times> query list) list option"
  cache_writable :: bool

text \<open>Python's \<^verbatim>\<open>str\<close> of an integer, for the f-string of \<^verbatim>\<open>_cache_key\<close>.\<close>

function str_nat :: "nat \<Rightarrow> string" where
  "str_nat n =
     (if n < 10 then [''0123456789'' ! n]
      else str_nat (n div 10) @ [''0123456789'' ! (n mod 10)])"
  by pat_completeness auto
termination
  by (relation "measure (\<lambda>n. n)") auto

declare str_nat.simps [simp del]

definition str_int :: "int \<Rightarrow> string" where
  "str_int i = (if i < 0 then CHR ''-'' # str_nat (nat (- i)) else str_nat (nat i))"

definition cache_key :: "session_file \<Rightarrow> string option" where
  "cache_key f =
     (case f_stat f of
        None \<Rightarrow> None
      | Some (st_mtime_ns, st_size) \<Rightarrow>
          Some (f_path f @ '':'' @ str_int st_mtime_ns @ '':'' @ str_int st_size))"

text \<open>
  \<^verbatim>\<open>_load_cache\<close> and \<^verbatim>\<open>_save_cache\<close> on a cache file of the environment: an absent
  cache is the empty dictionary, and a failed write leaves the file as it was.
\<close>

definition load_cache :: "env \<Rightarrow> (string \<times> query list) list" where
  "load_cache e = (case cache_file e of None \<Rightarrow> [] | Some c \<Rightarrow> c)"

definition save_cache :: "env \<Rightarrow> (string \<times> query list) list \<Rightarrow> (string \<times> query list) list option" where
  "save_cache e new_cache = (if cache_writable e then Some new_cache else cache_file e)"

text \<open>
  \<^verbatim>\<open>_load_cache\<close> on any cache file. It returns what \<^verbatim>\<open>json.loads\<close> gives, of whatever
  JSON type: its \<^verbatim>\<open>except\<close> clause is reached only when reading or decoding raises
  (the file is then \<^const>\<open>None\<close>), and nothing tests that the value is an object.
\<close>

datatype json =
    JNull
  | JBool bool
  | JNumber rat
  | JString string
  | JArray "json list"
  | JObject "(string \<times> json) list"

definition load_cache_raw :: "json option \<Rightarrow> json" where
  "load_cache_raw file = (case file of None \<Rightarrow> JObject [] | Some v \<Rightarrow> v)"

text \<open>
  Python's \<^verbatim>\<open>k in c\<close> for a string \<^verbatim>\<open>k\<close> and a decoded JSON value \<^verbatim>\<open>c\<close>: a key of a
  dictionary, an element of a list, a substring of a string, and \<^verbatim>\<open>TypeError\<close> on
  \<^verbatim>\<open>None\<close>, a boolean or a number, which are not containers.
\<close>

fun py_in :: "string \<Rightarrow> json \<Rightarrow> py_error + bool" where
  "py_in k JNull = Inl TypeError"
| "py_in k (JBool b) = Inl TypeError"
| "py_in k (JNumber n) = Inl TypeError"
| "py_in k (JString s) = Inr (sublist k s)"
| "py_in k (JArray xs) = Inr (JString k \<in> set xs)"
| "py_in k (JObject kvs) = Inr (k \<in> fst ` set kvs)"

text \<open>
  The test \<^verbatim>\<open>ck and ck in cache\<close> that opens the body of the loop over the session
  files. No \<^verbatim>\<open>try\<close> encloses it: what it raises leaves \<^verbatim>\<open>parse_all_sessions\<close>.
\<close>

definition cache_test :: "json \<Rightarrow> string option \<Rightarrow> py_error + bool" where
  "cache_test cache ck =
     (case ck of
        None \<Rightarrow> Inr False
      | Some k \<Rightarrow> if k = [] then Inr False else py_in k cache)"

section \<open>The aggregator\<close>

record session =
  s_sessionId :: string
  s_project :: string
  s_date :: string
  s_timestamp :: "string option"
  s_firstPrompt :: string
  s_model :: string
  s_queryCount :: int
  s_inputTokens :: int
  s_outputTokens :: int
  s_cacheCreationTokens :: int
  s_cacheReadTokens :: int
  s_totalTokens :: int
  s_cost :: rat
  s_thinkingTurns :: int
  s_totalToolCalls :: int
  s_toolDensity :: rat

record daily =
  d_date :: string
  d_inputTokens :: int
  d_outputTokens :: int
  d_cacheCreationTokens :: int
  d_cacheReadTokens :: int
  d_totalTokens :: int
  d_cost :: rat
  d_sessions :: int
  d_queries :: int

record model_rollup =
  mr_model :: string
  mr_inputTokens :: int
  mr_outputTokens :: int
  mr_cacheCreationTokens :: int
  mr_cacheReadTokens :: int
  mr_totalTokens :: int
  mr_cost :: rat
  mr_queryCount :: int

record prompt_rollup =
  pp_prompt :: string
  pp_inputTokens :: int
  pp_outputTokens :: int
  pp_cacheCreationTokens :: int
  pp_cacheReadTokens :: int
  pp_totalTokens :: int
  pp_cost :: rat
  pp_date :: string
  pp_sessionId :: string
  pp_model :: string

record project_rollup =
  pj_project :: string
  pj_inputTokens :: int
  pj_outputTokens :: int
  pj_cacheCreationTokens :: int
  pj_cacheReadTokens :: int
  pj_totalTokens :: int
  pj_cost :: rat
  pj_sessionCount :: int
  pj_queryCount :: int

record tool_stat =
  ts_name :: string
  ts_count :: int

record totals =
  totalTokens :: int
  totalInput :: int
  totalOutput :: int
  totalCacheCreation :: int
  totalCacheRead :: int
  totalCost :: rat
  totalSessions :: int
  totalQueries :: int
  totalThinkingTurns :: int
  cacheHitRate :: rat
  avgTokensPerSession :: int
  avgTokensPerQuery :: int

record snapshot =
  sessions :: "session list"
  dailyUsage :: "daily list"
  modelBreakdown :: "model_rollup list"
  topPrompts :: "prompt_rollup list"
  projects :: "project_rollup list"
  toolStats :: "tool_stat list"
  totals :: totals

definition empty_result :: snapshot where
  "empty_result =
     \<lparr>sessions = [], dailyUsage = [], modelBreakdown = [], topPrompts = [],
      projects = [], toolStats = [],
      totals = \<lparr>totalTokens = 0, totalInput = 0, totalOutput = 0,
                totalCacheCreation = 0, totalCacheRead = 0, totalCost = 0,
                totalSessions = 0, totalQueries = 0, totalThinkingTurns = 0,
                cacheHitRate = 0, avgTokensPerSession = 0, avgTokensPerQuery = 0\<rparr>\<rparr>"

text \<open>
  The accumulators that the loop over the files fills: \<^verbatim>\<open>sessions\<close>, \<^verbatim>\<open>daily_map\<close>,
  \<^verbatim>\<open>model_map\<close>, \<^verbatim>\<open>all_prompts\<close> and \<^verbatim>\<open>tool_frequency\<close>. The dictionaries are
  insertion-ordered association lists.
\<close>

record rollups =
  r_sessions :: "session list"
  r_daily_map :: "(string \<times> daily) list"
  r_model_map :: "(string \<times> model_rollup) list"
  r_all_prompts :: "prompt_rollup list"
  r_tool_frequency :: "(string \<times> int) list"

definition no_rollups :: rollups where
  "no_rollups =
     \<lparr>r_sessions = [], r_daily_map = [], r_model_map = [], r_all_prompts = [],
      r_tool_frequency = []\<rparr>"

text \<open>\<^verbatim>\<open>d[k] = d.get(k, 0) + 1\<close>, for the tool and the model counts.\<close>

definition count_up :: "(string \<times> int) list \<Rightarrow> string \<Rightarrow> (string \<times> int) list" where
  "count_up d k = AList.update k (dict_get d k 0 + 1) d"

text \<open>The first truthy value of a list, or \<^verbatim>\<open>None\<close>: the loops that \<^verbatim>\<open>break\<close>.\<close>

definition first_truthy :: "string option list \<Rightarrow> string option" where
  "first_truthy xs = (case List.find truthy xs of None \<Rightarrow> None | Some x \<Rightarrow> x)"

text \<open>
  \<^verbatim>\<open>max(model_counts, key=model_counts.get)\<close>: the first key, in insertion order, whose
  count is maximal.
\<close>

fun max_count :: "(string \<times> int) list \<Rightarrow> string option" where
  "max_count [] = None"
| "max_count (kc # rest) =
     Some (fst (foldl (\<lambda>best kc'. if snd kc' > snd best then kc' else best) kc rest))"

text \<open>The per-prompt grouping: the running group and \<^verbatim>\<open>flush_prompt\<close>.\<close>

record prompt_group =
  current_prompt :: "string option"
  p_input :: int
  p_output :: int
  p_cache_create :: int
  p_cache_read :: int
  p_cost :: rat

definition flush_prompt :: "string \<Rightarrow> string \<Rightarrow> string \<Rightarrow> prompt_group \<Rightarrow> prompt_rollup list \<Rightarrow> prompt_rollup list" where
  "flush_prompt date session_id primary_model g all_prompts =
     (case current_prompt g of
        None \<Rightarrow> all_prompts
      | Some cp \<Rightarrow>
          if cp \<noteq> [] \<and> p_input g + p_output g + p_cache_create g + p_cache_read g > 0
          then all_prompts @
                 [\<lparr>pp_prompt = take 300 cp,
                   pp_inputTokens = p_input g,
                   pp_outputTokens = p_output g,
                   pp_cacheCreationTokens = p_cache_create g,
                   pp_cacheReadTokens = p_cache_read g,
                   pp_totalTokens = p_input g + p_output g + p_cache_create g + p_cache_read g,
                   pp_cost = p_cost g,
                   pp_date = date,
                   pp_sessionId = session_id,
                   pp_model = primary_model\<rparr>]
          else all_prompts)"

definition group_query :: "string \<Rightarrow> string \<Rightarrow> string \<Rightarrow> prompt_group \<times> prompt_rollup list \<Rightarrow> query \<Rightarrow> prompt_group \<times> prompt_rollup list" where
  "group_query date session_id primary_model st q =
     (let (g, all_prompts) = st;
          (g1, all_prompts1) =
            (if truthy (q_userPrompt q) \<and> q_userPrompt q \<noteq> current_prompt g
             then (\<lparr>current_prompt = q_userPrompt q, p_input = 0, p_output = 0,
                     p_cache_create = 0, p_cache_read = 0, p_cost = 0\<rparr>,
                   flush_prompt date session_id primary_model g all_prompts)
             else (g, all_prompts))
      in (g1\<lparr>p_input := p_input g1 + q_inputTokens q,
              p_output := p_output g1 + q_outputTokens q,
              p_cache_create := p_cache_create g1 + q_cacheCreationTokens q,
              p_cache_read := p_cache_read g1 + q_cacheReadTokens q,
              p_cost := p_cost g1 + q_cost q\<rparr>,
          all_prompts1))"

definition group_prompts :: "string \<Rightarrow> string \<Rightarrow> string \<Rightarrow> query list \<Rightarrow> prompt_rollup list \<Rightarrow> prompt_rollup list" where
  "group_prompts date session_id primary_model queries all_prompts =
     (let (g, all_prompts') =
            foldl (group_query date session_id primary_model)
              (\<lparr>current_prompt = None, p_input = 0, p_output = 0,
                p_cache_create = 0, p_cache_read = 0, p_cost = 0\<rparr>, all_prompts) queries
      in flush_prompt date session_id primary_model g all_prompts')"

text \<open>The daily and the model aggregation.\<close>

definition add_daily :: "string \<Rightarrow> int \<Rightarrow> int \<Rightarrow> int \<Rightarrow> int \<Rightarrow> int \<Rightarrow> rat \<Rightarrow> int \<Rightarrow> (string \<times> daily) list \<Rightarrow> (string \<times> daily) list" where
  "add_daily date input_tokens output_tokens cache_creation_tokens cache_read_tokens
       total_tokens cost n_queries daily_map =
     (if date \<noteq> ''unknown'' then
        (let d = (case map_of daily_map date of
                    None \<Rightarrow> \<lparr>d_date = date, d_inputTokens = 0, d_outputTokens = 0,
                              d_cacheCreationTokens = 0, d_cacheReadTokens = 0,
                              d_totalTokens = 0, d_cost = 0, d_sessions = 0, d_queries = 0\<rparr>
                  | Some d \<Rightarrow> d)
         in AList.update date
              (d\<lparr>d_inputTokens := d_inputTokens d + input_tokens,
                 d_outputTokens := d_outputTokens d + output_tokens,
                 d_cacheCreationTokens := d_cacheCreationTokens d + cache_creation_tokens,
                 d_cacheReadTokens := d_cacheReadTokens d + cache_read_tokens,
                 d_totalTokens := d_totalTokens d + total_tokens,
                 d_cost := d_cost d + cost,
                 d_sessions := d_sessions d + 1,
                 d_queries := d_queries d + n_queries\<rparr>) daily_map)
      else daily_map)"

definition add_model :: "(string \<times> model_rollup) list \<Rightarrow> query \<Rightarrow> (string \<times> model_rollup) list" where
  "add_model model_map q =
     (let qm = q_model q in
      if qm = ''<synthetic>'' \<or> qm = ''unknown'' then model_map
      else
        (let mm = (case map_of model_map qm of
                     None \<Rightarrow> \<lparr>mr_model = qm, mr_inputTokens = 0, mr_outputTokens = 0,
                               mr_cacheCreationTokens = 0, mr_cacheReadTokens = 0,
                               mr_totalTokens = 0, mr_cost = 0, mr_queryCount = 0\<rparr>
                   | Some mm \<Rightarrow> mm)
         in AList.update qm
              (mm\<lparr>mr_inputTokens := mr_inputTokens mm + q_inputTokens q,
                  mr_outputTokens := mr_outputTokens mm + q_outputTokens q,
                  mr_cacheCreationTokens := mr_cacheCreationTokens mm + q_cacheCreationTokens q,
                  mr_cacheReadTokens := mr_cacheReadTokens mm + q_cacheReadTokens q,
                  mr_totalTokens := mr_totalTokens mm + q_totalTokens q,
                  mr_cost := mr_cost mm + q_cost q,
                  mr_queryCount := mr_queryCount mm + 1\<rparr>) model_map))"

text \<open>
  The session summary of one file's non-empty query list, and the body of the loop from
  \<^verbatim>\<open># Aggregate session\<close> on: the session is appended and every accumulator updated.
\<close>

definition session_date :: "query list \<Rightarrow> string option \<times> string" where
  "session_date queries =
     (let first_timestamp =
            (case first_truthy (map q_assistantTimestamp queries) of
               None \<Rightarrow> first_truthy (map q_userTimestamp queries)
             | Some t \<Rightarrow> Some t)
      in (first_timestamp,
          case first_timestamp of
            None \<Rightarrow> ''unknown''
          | Some t \<Rightarrow> takeWhile (\<lambda>c. c \<noteq> CHR ''T'') t))"

definition session_primary_model :: "query list \<Rightarrow> string" where
  "session_primary_model queries =
     (case max_count (foldl count_up [] (map q_model queries)) of
        None \<Rightarrow> ''unknown''
      | Some m \<Rightarrow> m)"

definition session_first_prompt_text :: "(string \<times> string) list \<Rightarrow> string \<Rightarrow> query list \<Rightarrow> string" where
  "session_first_prompt_text history session_id queries =
     (let first_prompt =
            (if truthy (map_of history session_id) then map_of history session_id
             else first_truthy (map q_userPrompt queries))
      in case first_prompt of None \<Rightarrow> ''(no prompt)'' | Some p \<Rightarrow> p)"

definition make_session :: "(string \<times> string) list \<Rightarrow> string \<Rightarrow> string \<Rightarrow> query list \<Rightarrow> session" where
  "make_session history project_dir session_id queries =
     (let input_tokens = sum_list (map q_inputTokens queries);
          output_tokens = sum_list (map q_outputTokens queries);
          cache_creation_tokens = sum_list (map q_cacheCreationTokens queries);
          cache_read_tokens = sum_list (map q_cacheReadTokens queries);
          cost = sum_list (map q_cost queries);
          thinking_turns = int (length (filter q_hasThinking queries));
          total_tokens = input_tokens + cache_creation_tokens + cache_read_tokens + output_tokens;
          (first_timestamp, date) = session_date queries;
          total_tool_calls = sum_list (map (\<lambda>q. int (length (q_tools q))) queries)
      in \<lparr>s_sessionId = session_id,
           s_project = project_dir,
           s_date = date,
           s_timestamp = first_timestamp,
           s_firstPrompt = take 200 (session_first_prompt_text history session_id queries),
           s_model = session_primary_model queries,
           s_queryCount = int (length queries),
           s_inputTokens = input_tokens,
           s_outputTokens = output_tokens,
           s_cacheCreationTokens = cache_creation_tokens,
           s_cacheReadTokens = cache_read_tokens,
           s_totalTokens = total_tokens,
           s_cost = cost,
           s_thinkingTurns = thinking_turns,
           s_totalToolCalls = total_tool_calls,
           s_toolDensity = (if queries \<noteq> [] then of_int total_tool_calls / of_int (int (length queries)) else 0)\<rparr>)"

definition aggregate_session :: "(string \<times> string) list \<Rightarrow> string \<Rightarrow> string \<Rightarrow> query list \<Rightarrow> rollups \<Rightarrow> rollups" where
  "aggregate_session history project_dir session_id queries r =
     (let s = make_session history project_dir session_id queries
      in \<lparr>r_sessions = r_sessions r @ [s],
           r_daily_map =
             add_daily (s_date s) (s_inputTokens s) (s_outputTokens s) (s_cacheCreationTokens s)
               (s_cacheReadTokens s) (s_totalTokens s) (s_cost s) (s_queryCount s) (r_daily_map r),
           r_model_map = foldl add_model (r_model_map r) queries,
           r_all_prompts =
             group_prompts (s_date s) session_id (s_model s) queries (r_all_prompts r),
           r_tool_frequency = foldl count_up (r_tool_frequency r) (concat (map q_tools queries))\<rparr>)"

section \<open>The scan (\<^verbatim>\<open>parse_all_sessions\<close>)\<close>

text \<open>
  The state of the loop over the files: \<^verbatim>\<open>new_cache\<close>, the accumulators, and a log
  of the paths handed to \<^verbatim>\<open>parse_jsonl_file\<close> (the instrumented parse count; the code
  keeps no such log and nothing reads it).
\<close>

record scan_state =
  new_cache :: "(string \<times> query list) list"
  rollups :: rollups
  parsed_log :: "string list"

text \<open>
  The first half of the body, up to \<^verbatim>\<open>if not queries\<close>: the cache lookup, else the
  parse. The result is the query list, or \<^const>\<open>None\<close> where the code \<^verbatim>\<open>continue\<close>s
  (the parse raised, or found no assistant record).
\<close>

definition parse_miss :: "string option \<Rightarrow> session_file \<Rightarrow> scan_state \<Rightarrow> query list option \<times> scan_state" where
  "parse_miss ck f st =
     (let st1 = st\<lparr>parsed_log := parsed_log st @ [f_path f]\<rparr>
      in case parse_jsonl_file (f_lines f) of
           Inl err \<Rightarrow> (None, st1)
         | Inr parsed \<Rightarrow>
             if assistantEntries parsed = [] then (None, st1)
             else
               (let queries = extract_session_data (assistantEntries parsed) (userMessages parsed)
                in (Some queries,
                    case ck of
                      None \<Rightarrow> st1
                    | Some k \<Rightarrow>
                        if k \<noteq> [] then st1\<lparr>new_cache := AList.update k queries (new_cache st1)\<rparr>
                        else st1)))"

definition load_queries :: "(string \<times> query list) list \<Rightarrow> session_file \<Rightarrow> scan_state \<Rightarrow> query list option \<times> scan_state" where
  "load_queries cache f st =
     (let ck = cache_key f
      in case ck of
           None \<Rightarrow> parse_miss ck f st
         | Some k \<Rightarrow>
             (case (if k \<noteq> [] then map_of cache k else None) of
                Some queries \<Rightarrow> (Some queries, st\<lparr>new_cache := AList.update k queries (new_cache st)\<rparr>)
              | None \<Rightarrow> parse_miss ck f st))"

definition process_file :: "(string \<times> query list) list \<Rightarrow> (string \<times> string) list \<Rightarrow> string \<Rightarrow> scan_state \<Rightarrow> session_file \<Rightarrow> scan_state" where
  "process_file cache history project_dir st f =
     (case load_queries cache f st of
        (None, st1) \<Rightarrow> st1
      | (Some queries, st1) \<Rightarrow>
          if queries = [] then st1
          else st1\<lparr>rollups := aggregate_session history project_dir (f_stem f) queries (rollups st1)\<rparr>)"

definition process_project :: "(string \<times> query list) list \<Rightarrow> (string \<times> string) list \<Rightarrow> scan_state \<Rightarrow> dir_entry \<Rightarrow> scan_state" where
  "process_project cache history st d =
     (case dir_files d of
        None \<Rightarrow> st
      | Some entries \<Rightarrow>
          foldl (process_file cache history (dir_name d)) st
            (filter (\<lambda>f. f_suffix f = ''.jsonl'') entries))"

text \<open>After the loop: the sorts, the project aggregation and the totals.\<close>

definition add_project :: "(string \<times> project_rollup) list \<Rightarrow> session \<Rightarrow> (string \<times> project_rollup) list" where
  "add_project project_map s =
     (let proj = s_project s;
          p = (case map_of project_map proj of
                 None \<Rightarrow> \<lparr>pj_project = proj, pj_inputTokens = 0, pj_outputTokens = 0,
                           pj_cacheCreationTokens = 0, pj_cacheReadTokens = 0,
                           pj_totalTokens = 0, pj_cost = 0, pj_sessionCount = 0, pj_queryCount = 0\<rparr>
               | Some p \<Rightarrow> p)
      in AList.update proj
           (p\<lparr>pj_inputTokens := pj_inputTokens p + s_inputTokens s,
              pj_outputTokens := pj_outputTokens p + s_outputTokens s,
              pj_cacheCreationTokens := pj_cacheCreationTokens p + s_cacheCreationTokens s,
              pj_cacheReadTokens := pj_cacheReadTokens p + s_cacheReadTokens s,
              pj_totalTokens := pj_totalTokens p + s_totalTokens s,
              pj_cost := pj_cost p + s_cost s,
              pj_sessionCount := pj_sessionCount p + 1,
              pj_queryCount := pj_queryCount p + s_queryCount s\<rparr>) project_map)"

text \<open>\<^verbatim>\<open>round(x)\<close> of Python 3: to the nearest integer, a tie to the even one.\<close>

definition py_round :: "rat \<Rightarrow> int" where
  "py_round x =
     (let f = \<lfloor>x\<rfloor>; d = x - of_int f
      in if d < 1 / 2 then f else if 1 / 2 < d then f + 1 else if even f then f else f + 1)"

definition make_totals :: "session list \<Rightarrow> totals" where
  "make_totals ss =
     (let total_input = sum_list (map s_inputTokens ss);
          total_output = sum_list (map s_outputTokens ss);
          total_cache_creation = sum_list (map s_cacheCreationTokens ss);
          total_cache_read = sum_list (map s_cacheReadTokens ss);
          total_tokens = total_input + total_output + total_cache_creation + total_cache_read;
          total_cost = sum_list (map s_cost ss);
          total_queries = sum_list (map s_queryCount ss);
          total_thinking_turns = sum_list (map s_thinkingTurns ss);
          cache_hit_rate =
            (if total_cache_read + total_cache_creation + total_input > 0
             then of_int total_cache_read / of_int (total_cache_read + total_cache_creation + total_input)
             else 0)
      in \<lparr>totalTokens = total_tokens,
           totalInput = total_input,
           totalOutput = total_output,
           totalCacheCreation = total_cache_creation,
           totalCacheRead = total_cache_read,
           totalCost = total_cost,
           totalSessions = int (length ss),
           totalQueries = total_queries,
           totalThinkingTurns = total_thinking_turns,
           cacheHitRate = cache_hit_rate,
           avgTokensPerSession =
             (if ss \<noteq> [] then py_round (of_int total_tokens / of_int (int (length ss))) else 0),
           avgTokensPerQuery =
             (if total_queries \<noteq> 0 then py_round (of_int total_tokens / of_int total_queries) else 0)\<rparr>)"

text \<open>
  Python's sorts are stable, also with \<^verbatim>\<open>reverse=True\<close> (equal keys keep their order);
  \<^const>\<open>sort_key\<close> is stable, so a descending sort is \<^const>\<open>sort_key\<close> on the negated key.
\<close>

definition finish :: "rollups \<Rightarrow> snapshot" where
  "finish r =
     (let sessions_sorted = sort_key (\<lambda>s. - s_totalTokens s) (r_sessions r);
          daily_usage = sort_key d_date (map snd (r_daily_map r));
          model_breakdown = sort_key (\<lambda>m. - mr_totalTokens m) (map snd (r_model_map r));
          top_prompts = take 50 (sort_key (\<lambda>p. - pp_totalTokens p) (r_all_prompts r));
          project_map = foldl add_project [] sessions_sorted;
          projects_sorted = sort_key (\<lambda>p. - pj_totalTokens p) (map snd project_map);
          tool_stats =
            sort_key (\<lambda>t. - ts_count t)
              (map (\<lambda>(name, count). \<lparr>ts_name = name, ts_count = count\<rparr>) (r_tool_frequency r))
      in \<lparr>sessions = sessions_sorted,
           dailyUsage = daily_usage,
           modelBreakdown = model_breakdown,
           topPrompts = top_prompts,
           projects = projects_sorted,
           toolStats = tool_stats,
           totals = make_totals sessions_sorted\<rparr>)"

text \<open>
  \<^verbatim>\<open>parse_all_sessions(force_refresh)\<close>. The result is the snapshot returned, the
  cache file as the scan leaves it, and the parse log.
\<close>

record scan_result =
  result :: snapshot
  cache_after :: "(string \<times> query list) list option"
  parsed_files :: "string list"

definition parse_all_sessions :: "bool \<Rightarrow> env \<Rightarrow> scan_result" where
  "parse_all_sessions force_refresh e =
     (case projects_dir e of
        Absent \<Rightarrow> \<lparr>result = empty_result, cache_after = cache_file e, parsed_files = []\<rparr>
      | Unlistable \<Rightarrow> \<lparr>result = empty_result, cache_after = cache_file e, parsed_files = []\<rparr>
      | Listing ds \<Rightarrow>
          (let cache = (if force_refresh then [] else load_cache e);
               project_dirs = filter dir_is_dir ds;
               st = foldl (process_project cache (session_first_prompt e))
                      \<lparr>new_cache = [], rollups = no_rollups, parsed_log = []\<rparr> project_dirs
           in \<lparr>result = finish (rollups st),
                cache_after = save_cache e (new_cache st),
                parsed_files = parsed_log st\<rparr>))"

section \<open>Notions used to state the properties\<close>

text \<open>The rate 4-tuples of the table, in the order input, output, cache write, cache read.\<close>

definition rates :: "rat \<Rightarrow> rat \<Rightarrow> rat \<Rightarrow> rat \<Rightarrow> pricing" where
  "rates i out cw cr =
     \<lparr>pr_input = i / 1000000, pr_output = out / 1000000,
      pr_cacheWrite = cw / 1000000, pr_cacheRead = cr / 1000000\<rparr>"

text \<open>A model identifier contains a token, case-insensitively.\<close>

definition has_token :: "string \<Rightarrow> string \<Rightarrow> bool" where
  "has_token tok s = sublist tok (lower s)"

text \<open>
  The message identity of a record, and the assistant records of a file in file order:
  the lines that are top-level records of type assistant with a message body and a
  non-empty identity, each with its identity.
\<close>

definition message_id :: "entry \<Rightarrow> string option" where
  "message_id e = (case e_message e of None \<Rightarrow> None | Some msg \<Rightarrow> m_id msg)"

fun assistant_record :: "jsonl_line \<Rightarrow> (string \<times> entry) option" where
  "assistant_record (Parsed e) =
     (case message_id e of
        None \<Rightarrow> None
      | Some i \<Rightarrow>
          if \<not> e_isSidechain e \<and> e_type e = Some ''assistant'' \<and> i \<noteq> [] then Some (i, e)
          else None)"
| "assistant_record _ = None"

definition assistant_occurrences :: "jsonl_line list \<Rightarrow> (string \<times> entry) list" where
  "assistant_occurrences lines = List.map_filter assistant_record lines"

text \<open>A line on which the loop of \<^verbatim>\<open>parse_jsonl_file\<close> raises.\<close>

fun line_raises :: "jsonl_line \<Rightarrow> bool" where
  "line_raises TooDeep = True"
| "line_raises NotObject = True"
| "line_raises (UnhashableId is_sidechain) = (\<not> is_sidechain)"
| "line_raises (MessageNotObject is_sidechain entry_type) =
     (\<not> is_sidechain \<and> (entry_type = Some ''user'' \<or> entry_type = Some ''assistant''))"
| "line_raises _ = False"

text \<open>The distinct elements of a list, in the order of their first occurrences.\<close>

function first_occurrences :: "'a list \<Rightarrow> 'a list" where
  "first_occurrences [] = []"
| "first_occurrences (x # xs) = x # first_occurrences (removeAll x xs)"
  by pat_completeness auto
termination
  by (relation "measure length") (auto simp: length_removeAll_less_eq less_Suc_eq_le)

text \<open>The value of the last pair of a list that has the key.\<close>

definition last_occurrence :: "('k \<times> 'v) list \<Rightarrow> 'k \<Rightarrow> 'v option" where
  "last_occurrence kvs k =
     (case filter (\<lambda>kv. fst kv = k) kvs of [] \<Rightarrow> None | kv # rest \<Rightarrow> Some (snd (last (kv # rest))))"

text \<open>\<^verbatim>\<open>d[k] = v\<close> on an insertion-ordered dictionary, with the pair as one argument.\<close>

definition set_item :: "('k \<times> 'v) list \<Rightarrow> 'k \<times> 'v \<Rightarrow> ('k \<times> 'v) list" where
  "set_item al kv = AList.update (fst kv) (snd kv) al"

text \<open>Sample records for the worked examples: a user prompt and an assistant turn.\<close>

definition user_record :: "string \<Rightarrow> string option \<Rightarrow> entry" where
  "user_record text ts =
     \<lparr>e_isSidechain = False, e_isMeta = False, e_type = Some ''user'',
      e_message = Some \<lparr>m_role = Some ''user'', m_id = None, m_model = None, m_usage = None,
                        m_content = ContentStr text\<rparr>,
      e_timestamp = ts, e_uuid = None\<rparr>"

definition assistant_turn :: "string \<Rightarrow> string option \<Rightarrow> string option \<Rightarrow> (string \<times> int) list \<Rightarrow> entry" where
  "assistant_turn mid model ts usage =
     \<lparr>e_isSidechain = False, e_isMeta = False, e_type = Some ''assistant'',
      e_message = Some \<lparr>m_role = Some ''assistant'', m_id = Some mid, m_model = model,
                        m_usage = Some usage, m_content = ContentList []\<rparr>,
      e_timestamp = ts, e_uuid = None\<rparr>"

text \<open>
  Timestamps in time order: \<open>not_after a b\<close> holds when both are present and \<open>a\<close> is not
  after \<open>b\<close>. A timeline is chronological when every turn has a timestamp and the
  timestamps never decrease. \<open>assistant_times\<close> lists the timestamps that are present
  on the assistant records that yield a query, in list order.
\<close>

definition has_timestamp :: "string option \<Rightarrow> bool" where
  "has_timestamp t \<longleftrightarrow> t \<noteq> None"

fun not_after :: "string option \<Rightarrow> string option \<Rightarrow> bool" where
  "not_after (Some a) (Some b) = (a \<le> b)"
| "not_after _ _ = False"

definition chronological :: "user_turn list \<Rightarrow> bool" where
  "chronological timeline \<longleftrightarrow>
     list_all (\<lambda>u. has_timestamp (u_timestamp u)) timeline \<and>
     sorted_wrt (\<lambda>u v. not_after (u_timestamp u) (u_timestamp v)) timeline"

definition assistant_times :: "entry list \<Rightarrow> string list" where
  "assistant_times entries =
     List.map_filter e_timestamp (filter (\<lambda>e. usage_and_model e \<noteq> None) entries)"

text \<open>
  The files a scan visits, in the order of the two nested loops, each with the name of
  its project directory; and, for one file under a given loaded cache: the cached query
  list on a fingerprint hit, the query list a parse yields (\<^const>\<open>None\<close> when the parse
  raises or finds no assistant record), the query list the loop goes on with, the entry
  written to the new cache, and the session input that reaches the aggregation.
\<close>

definition scanned_files :: "dir_entry list \<Rightarrow> (string \<times> session_file) list" where
  "scanned_files ds =
     concat (map (\<lambda>d. case dir_files d of
                         None \<Rightarrow> []
                       | Some entries \<Rightarrow>
                           map (Pair (dir_name d)) (filter (\<lambda>f. f_suffix f = ''.jsonl'') entries))
               (filter dir_is_dir ds))"

definition scan_files :: "env \<Rightarrow> (string \<times> session_file) list" where
  "scan_files e = (case projects_dir e of Listing ds \<Rightarrow> scanned_files ds | _ \<Rightarrow> [])"

definition cache_hit :: "(string \<times> query list) list \<Rightarrow> session_file \<Rightarrow> query list option" where
  "cache_hit cache f = (case cache_key f of None \<Rightarrow> None | Some k \<Rightarrow> map_of cache k)"

definition parsed_queries :: "session_file \<Rightarrow> query list option" where
  "parsed_queries f =
     (case parse_jsonl_file (f_lines f) of
        Inl err \<Rightarrow> None
      | Inr parsed \<Rightarrow>
          if assistantEntries parsed = [] then None
          else Some (extract_session_data (assistantEntries parsed) (userMessages parsed)))"

definition file_queries :: "(string \<times> query list) list \<Rightarrow> session_file \<Rightarrow> query list option" where
  "file_queries cache f =
     (case cache_hit cache f of Some queries \<Rightarrow> Some queries | None \<Rightarrow> parsed_queries f)"

definition recorded :: "(string \<times> query list) list \<Rightarrow> session_file \<Rightarrow> (string \<times> query list) option" where
  "recorded cache f =
     (case cache_key f of
        None \<Rightarrow> None
      | Some k \<Rightarrow> (case file_queries cache f of None \<Rightarrow> None | Some queries \<Rightarrow> Some (k, queries)))"

definition emitted :: "(string \<times> query list) list \<Rightarrow> string \<times> session_file \<Rightarrow> (string \<times> string \<times> query list) option" where
  "emitted cache pf =
     (case file_queries cache (snd pf) of
        None \<Rightarrow> None
      | Some queries \<Rightarrow> if queries = [] then None else Some (fst pf, f_stem (snd pf), queries))"

text \<open>The two nested loops as one loop over the visited files.\<close>

definition scan_loop :: "(string \<times> query list) list \<Rightarrow> (string \<times> string) list \<Rightarrow> scan_state \<Rightarrow> (string \<times> session_file) list \<Rightarrow> scan_state" where
  "scan_loop cache history st items =
     foldl (\<lambda>st pf. process_file cache history (fst pf) st (snd pf)) st items"

text \<open>The aggregation of one session, as a step of a fold.\<close>

definition add_session :: "(string \<times> string) list \<Rightarrow> rollups \<Rightarrow> string \<times> string \<times> query list \<Rightarrow> rollups" where
  "add_session history r pq =
     aggregate_session history (fst pq) (fst (snd pq)) (snd (snd pq)) r"


text \<open>The cache a scan looks files up in.\<close>

definition scan_cache :: "bool \<Rightarrow> env \<Rightarrow> (string \<times> query list) list" where
  "scan_cache force_refresh e = (if force_refresh then [] else load_cache e)"


text \<open>Sample files and directories for the worked examples.\<close>

definition sample_file :: "string \<Rightarrow> (int \<times> int) option \<Rightarrow> jsonl_line list option \<Rightarrow> session_file" where
  "sample_file stem st lines =
     \<lparr>f_path = ''p/'' @ stem @ ''.jsonl'', f_stem = stem, f_suffix = ''.jsonl'',
      f_stat = st, f_lines = lines\<rparr>"

definition sample_env :: "session_file list \<Rightarrow> (string \<times> query list) list option \<Rightarrow> env" where
  "sample_env files cache =
     \<lparr>projects_dir = Listing [\<lparr>dir_name = ''p'', dir_is_dir = True, dir_files = Some files\<rparr>],
      session_first_prompt = [], cache_file = cache, cache_writable = True\<rparr>"

text \<open>
  For the rollup cross-checks: a session has a known date; a query is attributed to a
  model (its model is neither the placeholder for a missing model nor the synthetic one)
  and carries as total the sum of its four counts; and all queries a scan loads.
\<close>

definition known_date :: "session \<Rightarrow> bool" where
  "known_date s \<longleftrightarrow> s_date s \<noteq> ''unknown''"

definition attributed :: "query \<Rightarrow> bool" where
  "attributed q \<longleftrightarrow>
     q_model q \<noteq> ''<synthetic>'' \<and> q_model q \<noteq> ''unknown'' \<and>
     q_totalTokens q = q_inputTokens q + q_cacheCreationTokens q + q_cacheReadTokens q + q_outputTokens q"

definition scan_queries :: "bool \<Rightarrow> env \<Rightarrow> query list" where
  "scan_queries force_refresh e =
     concat (map (\<lambda>pf. case file_queries (scan_cache force_refresh e) (snd pf) of
                          None \<Rightarrow> []
                        | Some queries \<Rightarrow> queries) (scan_files e))"

text \<open>The session summary of one aggregated file.\<close>

definition session_of :: "(string \<times> string) list \<Rightarrow> string \<times> string \<times> query list \<Rightarrow> session" where
  "session_of history pq = make_session history (fst pq) (fst (snd pq)) (snd (snd pq))"




section \<open>Properties of the pricing table\<close>

lemma pricing_entry_simps:
  "pricing_entry ''opus-4.5'' = Inr (rates 5 25 6.25 0.5)"
  "pricing_entry ''opus-4.6'' = Inr (rates 5 25 6.25 0.5)"
  "pricing_entry ''opus-4.0'' = Inr (rates 15 75 18.75 1.5)"
  "pricing_entry ''opus-4.1'' = Inr (rates 15 75 18.75 1.5)"
  "pricing_entry ''sonnet'' = Inr (rates 3 15 3.75 0.3)"
  "pricing_entry ''haiku-4.5'' = Inr (rates 1 5 1.25 0.1)"
  "pricing_entry ''haiku-3.5'' = Inr (rates 0.8 4 1 0.08)"
  by (simp_all add: pricing_entry_def MODEL_PRICING_def rates_def)

lemma get_pricing_total: "\<exists>p. get_pricing model = Inr p"
  by (simp add: get_pricing_def pricing_entry_simps Let_def split: option.split)

lemma has_token_sublist: "has_token tok s = sublist tok (lower s)"
  by (simp add: has_token_def)

text \<open>
  C5, as the code has it. \<^verbatim>\<open>get_pricing\<close> returns a rate 4-tuple for every optional
  model string and never raises. \<^verbatim>\<open>None\<close> and the empty string resolve to the sonnet
  rates. Otherwise the families are tried case-insensitively in the order opus, sonnet,
  haiku. Within opus the sub-versions are tried in the order 4.6, 4.5, 4.1, each in the
  spelling with a dot or with a dash (\<^verbatim>\<open>4.6\<close> or \<^verbatim>\<open>4-6\<close>), else the 4.0 baseline;
  within haiku 4.5 (\<^verbatim>\<open>4.5\<close> or \<^verbatim>\<open>4-5\<close>), else the 3.5 baseline; any other model
  resolves to the sonnet rates. Rates are per million tokens.
\<close>

theorem get_pricing_resolution:
  "get_pricing model = Inr
     (case model of
        None \<Rightarrow> rates 3 15 3.75 0.3
      | Some s \<Rightarrow>
          if s = [] then rates 3 15 3.75 0.3
          else if has_token ''opus'' s then
            (if has_token ''4-6'' s \<or> has_token ''4.6'' s then rates 5 25 6.25 0.5
             else if has_token ''4-5'' s \<or> has_token ''4.5'' s then rates 5 25 6.25 0.5
             else if has_token ''4-1'' s \<or> has_token ''4.1'' s then rates 15 75 18.75 1.5
             else rates 15 75 18.75 1.5)
          else if has_token ''sonnet'' s then rates 3 15 3.75 0.3
          else if has_token ''haiku'' s then
            (if has_token ''4-5'' s \<or> has_token ''4.5'' s then rates 1 5 1.25 0.1
             else rates 0.8 4 1 0.08)
          else rates 3 15 3.75 0.3)"
  by (simp add: get_pricing_def has_token_sublist pricing_entry_simps Let_def split: option.split)

text \<open>
  C5 as stated fails: the model \<^verbatim>\<open>claude-opus-4-6\<close> contains \<^verbatim>\<open>opus\<close> and none of the
  tokens \<^verbatim>\<open>4.6\<close>, \<^verbatim>\<open>4.5\<close>, \<^verbatim>\<open>4.1\<close>, yet it resolves to the 4.6 rates, not to the
  opus 4.0 baseline.
\<close>

theorem get_pricing_dash_counterexample:
  "has_token ''opus'' ''claude-opus-4-6'' \<and>
   \<not> has_token ''4.6'' ''claude-opus-4-6'' \<and>
   \<not> has_token ''4.5'' ''claude-opus-4-6'' \<and>
   \<not> has_token ''4.1'' ''claude-opus-4-6'' \<and>
   get_pricing (Some ''claude-opus-4-6'') = Inr (rates 5 25 6.25 0.5) \<and>
   get_pricing (Some ''claude-opus-4-6'') \<noteq> Inr (rates 15 75 18.75 1.5)"
  by (simp add: get_pricing_def has_token_sublist pricing_entry_simps Let_def lower_def
      sublist_Cons_right rates_def)

section \<open>Properties of the record parser\<close>

lemma keys_set_item:
  "map fst (set_item al kv) =
     (if fst kv \<in> set (map fst al) then map fst al else map fst al @ [fst kv])"
  by (simp add: set_item_def update_keys)

lemma keys_foldl_set_item:
  "map fst (foldl set_item al kvs) =
     map fst al @ first_occurrences (filter (\<lambda>k. k \<notin> set (map fst al)) (map fst kvs))"
proof (induction kvs arbitrary: al)
  case Nil
  show ?case by simp
next
  case (Cons kv kvs)
  show ?case
  proof (cases "fst kv \<in> set (map fst al)")
    case True
    then have "map fst (set_item al kv) = map fst al" by (simp add: keys_set_item)
    with Cons.IH [of "set_item al kv"] True show ?thesis by simp
  next
    case False
    then have k: "map fst (set_item al kv) = map fst al @ [fst kv]" by (simp add: keys_set_item)
    have "filter (\<lambda>k. k \<notin> set (map fst al @ [fst kv])) (map fst kvs) =
          removeAll (fst kv) (filter (\<lambda>k. k \<notin> set (map fst al)) (map fst kvs))"
      by (induction kvs) auto
    with Cons.IH [of "set_item al kv"] False k show ?thesis by simp
  qed
qed

lemma map_of_foldl_set_item:
  "map_of (foldl set_item al kvs) = map_of al ++ map_of (rev kvs)"
proof (induction kvs arbitrary: al)
  case Nil
  show ?case by simp
next
  case (Cons kv kvs)
  have "map_of (set_item al kv) = (map_of al)(fst kv \<mapsto> snd kv)"
    by (simp add: set_item_def update_conv')
  with Cons.IH [of "set_item al kv"] show ?case
    by (cases kv) (simp add: map_add_upd_left fun_eq_iff map_add_def split: option.split)
qed

lemma distinct_foldl_set_item:
  "distinct (map fst al) \<Longrightarrow> distinct (map fst (foldl set_item al kvs))"
  by (induction kvs arbitrary: al) (simp_all add: set_item_def distinct_update)

lemma set_foldl_set_item: "set (foldl set_item al kvs) \<subseteq> set al \<union> set kvs"
proof (induction kvs arbitrary: al)
  case Nil
  show ?case by simp
next
  case (Cons kv kvs)
  have "set (set_item al kv) \<subseteq> set al \<union> {kv}"
    by (induction al) (auto simp: set_item_def)
  with Cons.IH [of "set_item al kv"] show ?case by auto
qed

lemma map_of_rev_last_occurrence: "map_of (rev kvs) k = last_occurrence kvs k"
proof (induction kvs rule: rev_induct)
  case Nil
  show ?case by (simp add: last_occurrence_def)
next
  case (snoc kv kvs)
  then show ?case
    by (cases kv) (auto simp: last_occurrence_def split: list.splits)
qed

lemma parse_line_raises: "(\<exists>err. parse_line st l = Inl err) \<longleftrightarrow> line_raises l"
  by (cases l; cases st) (auto simp: Let_def split: option.splits)

lemma parse_line_message_map:
  "parse_line st l = Inr st' \<Longrightarrow>
   fst st' = (case assistant_record l of None \<Rightarrow> fst st | Some kv \<Rightarrow> set_item (fst st) kv)"
  by (cases l; cases st)
     (auto simp: message_id_def set_item_def Let_def split: option.splits if_splits)

lemma parse_lines_message_map:
  "parse_lines st lines = Inr st' \<Longrightarrow>
   fst st' = foldl set_item (fst st) (assistant_occurrences lines)"
proof (induction lines arbitrary: st)
  case Nil
  then show ?case by (simp add: assistant_occurrences_def List.map_filter_simps)
next
  case (Cons l lines)
  from Cons.prems obtain st1 where 1: "parse_line st l = Inr st1" and 2: "parse_lines st1 lines = Inr st'"
    by (auto split: sum.splits)
  from Cons.IH [OF 2] parse_line_message_map [OF 1] show ?case
    by (simp add: assistant_occurrences_def List.map_filter_simps split: option.splits)
qed

lemma parse_lines_returns:
  "(\<exists>st'. parse_lines st lines = Inr st') \<longleftrightarrow> \<not> list_ex line_raises lines"
proof (induction lines arbitrary: st)
  case Nil
  show ?case by simp
next
  case (Cons l lines)
  show ?case
  proof (cases "parse_line st l")
    case (Inl err)
    then have "line_raises l" using parse_line_raises [of st l] by blast
    with Inl show ?thesis by simp
  next
    case (Inr st1)
    then have "\<not> line_raises l" using parse_line_raises [of st l] by auto
    with Inr Cons.IH [of st1] show ?thesis by simp
  qed
qed

lemma assistant_occurrences_id:
  "(k, e) \<in> set (assistant_occurrences lines) \<Longrightarrow> message_id e = Some k"
  by (auto simp: assistant_occurrences_def List.map_filter_def split: if_splits option.splits
      elim!: assistant_record.elims)

lemma parse_jsonl_file_Inr:
  "parse_jsonl_file (Some lines) = Inr p \<Longrightarrow>
   assistantEntries p = map snd (foldl set_item [] (assistant_occurrences lines))"
  by (auto simp: parse_jsonl_file_def split: sum.splits prod.splits dest: parse_lines_message_map)

lemma parse_jsonl_file_returns:
  "(\<exists>p. parse_jsonl_file (Some lines) = Inr p) \<longleftrightarrow> \<not> list_ex line_raises lines"
  using parse_lines_returns [of "([], [])" lines]
  by (auto simp: parse_jsonl_file_def split: sum.splits prod.splits)

lemma parse_jsonl_file_raises:
  "parse_jsonl_file (Some lines) = Inl err \<Longrightarrow> list_ex line_raises lines"
  using parse_jsonl_file_returns [of lines] by auto

text \<open>
  C2. A readable file either has a line on which the loop raises (nested too deep, valid
  JSON that is not an object, a record with a message that is not an object or with an
  identity that cannot be hashed), and then \<^verbatim>\<open>parse_jsonl_file\<close> raises; or it has none,
  and then \<^verbatim>\<open>parse_jsonl_file\<close> returns: its assistant records have pairwise distinct
  message identities; their identities are those of the file's assistant records in the
  order of first occurrence; and each returned record is the last record of the file
  with its identity.
\<close>

theorem parse_jsonl_file_dedup:
  "case parse_jsonl_file (Some lines) of
     Inl err \<Rightarrow> list_ex line_raises lines
   | Inr p \<Rightarrow>
       \<not> list_ex line_raises lines \<and>
       distinct (map message_id (assistantEntries p)) \<and>
       map message_id (assistantEntries p) =
         map Some (first_occurrences (map fst (assistant_occurrences lines))) \<and>
       (\<forall>e \<in> set (assistantEntries p).
          \<exists>k. message_id e = Some k \<and> last_occurrence (assistant_occurrences lines) k = Some e)"
proof (cases "parse_jsonl_file (Some lines)")
  case (Inl err)
  then show ?thesis using parse_jsonl_file_raises [of lines err] by simp
next
  case (Inr p)
  let ?occ = "assistant_occurrences lines"
  let ?mm = "foldl set_item [] ?occ"
  let ?r = "map snd ?mm"
  have r: "assistantEntries p = ?r" using Inr by (rule parse_jsonl_file_Inr)
  have 0: "\<not> list_ex line_raises lines" using Inr parse_jsonl_file_returns [of lines] by blast
  have ids: "(k, e) \<in> set ?mm \<Longrightarrow> message_id e = Some k" for k e
    using set_foldl_set_item [of "[]" ?occ] assistant_occurrences_id by fastforce
  have keys: "map message_id ?r = map Some (map fst ?mm)"
    using ids by auto
  have d: "distinct (map fst ?mm)" by (rule distinct_foldl_set_item) simp
  have 1: "map message_id ?r = map Some (first_occurrences (map fst ?occ))"
    using keys keys_foldl_set_item [of "[]" ?occ] by simp
  have 2: "distinct (map message_id ?r)"
    using d keys by (simp add: distinct_map inj_on_def)
  have 3: "\<exists>k. message_id e = Some k \<and> last_occurrence ?occ k = Some e" if "e \<in> set ?r" for e
  proof -
    from that obtain k where ke: "(k, e) \<in> set ?mm" by auto
    with d have "map_of ?mm k = Some e" by simp
    then have "last_occurrence ?occ k = Some e"
      by (simp add: map_of_foldl_set_item map_of_rev_last_occurrence)
    with ids [OF ke] show ?thesis by blast
  qed
  show ?thesis
    using 0 1 2 3 by (simp add: Inr r)
qed

text \<open>
  The identity \<^verbatim>\<open>msg_a\<close> occurs twice, around \<^verbatim>\<open>msg_b\<close>: the later record of
  \<^verbatim>\<open>msg_a\<close> is returned, in the place of the first. With a line that holds a number
  in the place of \<^verbatim>\<open>msg_b\<close> the file raises.
\<close>

theorem parse_jsonl_file_dedup_witness:
  "parse_jsonl_file
     (Some [Parsed (assistant_turn ''msg_a'' None (Some ''1'') [(''output_tokens'', 1)]),
            Parsed (assistant_turn ''msg_b'' None (Some ''2'') [(''output_tokens'', 2)]),
            Parsed (assistant_turn ''msg_a'' None (Some ''3'') [(''output_tokens'', 3)])]) =
   Inr \<lparr>assistantEntries =
          [assistant_turn ''msg_a'' None (Some ''3'') [(''output_tokens'', 3)],
           assistant_turn ''msg_b'' None (Some ''2'') [(''output_tokens'', 2)]],
        userMessages = []\<rparr> \<and>
   map message_id
     [assistant_turn ''msg_a'' None (Some ''3'') [(''output_tokens'', 3)],
      assistant_turn ''msg_b'' None (Some ''2'') [(''output_tokens'', 2)]] =
   map Some (first_occurrences (map fst (assistant_occurrences
     [Parsed (assistant_turn ''msg_a'' None (Some ''1'') [(''output_tokens'', 1)]),
      Parsed (assistant_turn ''msg_b'' None (Some ''2'') [(''output_tokens'', 2)]),
      Parsed (assistant_turn ''msg_a'' None (Some ''3'') [(''output_tokens'', 3)])]))) \<and>
   first_occurrences [''msg_a'', ''msg_b'', ''msg_a''] = [''msg_a'', ''msg_b''] \<and>
   parse_jsonl_file
     (Some [Parsed (assistant_turn ''msg_a'' None (Some ''1'') [(''output_tokens'', 1)]),
            NotObject,
            Parsed (assistant_turn ''msg_a'' None (Some ''3'') [(''output_tokens'', 3)])]) =
   Inl AttributeError \<and>
   list_ex line_raises
     [Parsed (assistant_turn ''msg_a'' None (Some ''1'') [(''output_tokens'', 1)]),
      NotObject,
      Parsed (assistant_turn ''msg_a'' None (Some ''3'') [(''output_tokens'', 3)])]"
proof -
  let ?a1 = "assistant_turn ''msg_a'' None (Some ''1'') [(''output_tokens'', 1)]"
  let ?b = "assistant_turn ''msg_b'' None (Some ''2'') [(''output_tokens'', 2)]"
  let ?a3 = "assistant_turn ''msg_a'' None (Some ''3'') [(''output_tokens'', 3)]"
  have 1: "parse_jsonl_file (Some [Parsed ?a1, Parsed ?b, Parsed ?a3]) =
      Inr \<lparr>assistantEntries = [?a3, ?b], userMessages = []\<rparr>"
    by (simp add: parse_jsonl_file_def assistant_turn_def)
  have 2: "map message_id [?a3, ?b] =
      map Some (first_occurrences (map fst (assistant_occurrences [Parsed ?a1, Parsed ?b, Parsed ?a3])))"
    using parse_jsonl_file_dedup [of "[Parsed ?a1, Parsed ?b, Parsed ?a3]"]
    unfolding 1 by simp
  have 3: "first_occurrences [''msg_a'', ''msg_b'', ''msg_a''] = [''msg_a'', ''msg_b'']"
    by simp
  have 4: "parse_jsonl_file (Some [Parsed ?a1, NotObject, Parsed ?a3]) = Inl AttributeError"
    by (simp add: parse_jsonl_file_def assistant_turn_def)
  have 5: "list_ex line_raises [Parsed ?a1, NotObject, Parsed ?a3]"
    using parse_jsonl_file_dedup [of "[Parsed ?a1, NotObject, Parsed ?a3]"]
    unfolding 4 by simp
  show ?thesis by (intro conjI 1 2 3 4 5)
qed

section \<open>Properties of the query extractor\<close>

lemmas extract_eval =
  extract_session_data_def assistant_turn_def user_record_def message_content_def
  usage_and_model_def advance.simps next_not_after_def make_query_def Let_def dict_get_def
  block_tools_def block_thinking_def get_pricing_def pricing_entry_def MODEL_PRICING_def
  lower_def sublist_Cons_right

lemma make_query_fields:
  "q_totalTokens (make_query e u m um) =
     q_inputTokens (make_query e u m um) + q_cacheCreationTokens (make_query e u m um) +
     q_cacheReadTokens (make_query e u m um) + q_outputTokens (make_query e u m um)"
  "q_model (make_query e u m um) = m"
  "q_cost (make_query e u m um) =
     of_int (q_inputTokens (make_query e u m um)) * pr_input (projr (get_pricing (Some m))) +
     of_int (q_cacheCreationTokens (make_query e u m um)) * pr_cacheWrite (projr (get_pricing (Some m))) +
     of_int (q_cacheReadTokens (make_query e u m um)) * pr_cacheRead (projr (get_pricing (Some m))) +
     of_int (q_outputTokens (make_query e u m um)) * pr_output (projr (get_pricing (Some m)))"
  "q_userPrompt (make_query e u m um) = (case um of None \<Rightarrow> None | Some t \<Rightarrow> u_text t)"
  "q_userTimestamp (make_query e u m um) = (case um of None \<Rightarrow> None | Some t \<Rightarrow> u_timestamp t)"
  "q_assistantTimestamp (make_query e u m um) = e_timestamp e"
  by (simp_all add: make_query_def Let_def)

lemma pair_loop_members:
  "q \<in> set (pair_loop timeline i entries) \<Longrightarrow> \<exists>e u m um. q = make_query e u m um"
proof (induction entries arbitrary: i)
  case Nil
  then show ?case by simp
next
  case (Cons a entries)
  then show ?case
    by (auto simp: Let_def split: option.splits prod.splits)
qed

text \<open>
  C7. Every query that \<^verbatim>\<open>extract_session_data\<close> emits has as total the sum of its four
  token counts, and as cost the four counts times the rates that \<^verbatim>\<open>get_pricing\<close>
  resolves for the query's model, whatever the model is.
\<close>

theorem extract_session_data_tokens_cost:
  "\<forall>q \<in> set (extract_session_data assistant_entries user_messages).
     q_totalTokens q =
       q_inputTokens q + q_cacheCreationTokens q + q_cacheReadTokens q + q_outputTokens q \<and>
     (\<exists>p. get_pricing (Some (q_model q)) = Inr p \<and>
        q_cost q =
          of_int (q_inputTokens q) * pr_input p + of_int (q_cacheCreationTokens q) * pr_cacheWrite p +
          of_int (q_cacheReadTokens q) * pr_cacheRead p + of_int (q_outputTokens q) * pr_output p)"
proof
  fix q assume "q \<in> set (extract_session_data assistant_entries user_messages)"
  then obtain e u m um where q: "q = make_query e u m um"
    unfolding extract_session_data_def by (blast dest: pair_loop_members)
  obtain p where p: "get_pricing (Some m) = Inr p" using get_pricing_total by blast
  show "q_totalTokens q =
       q_inputTokens q + q_cacheCreationTokens q + q_cacheReadTokens q + q_outputTokens q \<and>
     (\<exists>p. get_pricing (Some (q_model q)) = Inr p \<and>
        q_cost q =
          of_int (q_inputTokens q) * pr_input p + of_int (q_cacheCreationTokens q) * pr_cacheWrite p +
          of_int (q_cacheReadTokens q) * pr_cacheRead p + of_int (q_outputTokens q) * pr_output p)"
    unfolding q using p make_query_fields(1) [of e u m um]
    by (simp add: make_query_fields(2,3))
qed

text \<open>
  An opus 4.6 turn with 3 input, 2 cache-write, 4 cache-read and 7 output tokens: 16
  tokens, at 5, 6.25, 0.5 and 25 per million.
\<close>

theorem extract_session_data_tokens_cost_witness:
  "map q_totalTokens
     (extract_session_data
        [assistant_turn ''m1'' (Some ''claude-opus-4-6'') (Some ''15'')
           [(''input_tokens'', 3), (''cache_creation_input_tokens'', 2),
            (''cache_read_input_tokens'', 4), (''output_tokens'', 7)]]
        [user_record ''first'' (Some ''10'')]) = [3 + 2 + 4 + 7] \<and>
   map q_cost
     (extract_session_data
        [assistant_turn ''m1'' (Some ''claude-opus-4-6'') (Some ''15'')
           [(''input_tokens'', 3), (''cache_creation_input_tokens'', 2),
            (''cache_read_input_tokens'', 4), (''output_tokens'', 7)]]
        [user_record ''first'' (Some ''10'')]) =
     [3 * (5 / 1000000) + 2 * (6.25 / 1000000) + 4 * (0.5 / 1000000) + 7 * (25 / 1000000)]"
  using extract_session_data_tokens_cost
    [of "[assistant_turn ''m1'' (Some ''claude-opus-4-6'') (Some ''15'')
           [(''input_tokens'', 3), (''cache_creation_input_tokens'', 2),
            (''cache_read_input_tokens'', 4), (''output_tokens'', 7)]]"
        "[user_record ''first'' (Some ''10'')]"]
  by (simp add: extract_eval)

lemma advance_stop: "\<not> next_not_after timeline ts i \<Longrightarrow> advance timeline ts i = i"
  by (simp add: advance.simps)

lemma advance_step: "next_not_after timeline ts i \<Longrightarrow> advance timeline ts i = advance timeline ts (i + 1)"
  by (subst advance.simps) simp


text \<open>
  C3. With a filtered timeline of two user turns, the second at \<open>t2\<close>, an assistant
  record at \<open>ta\<close> is paired with the first turn when \<open>ta\<close> is before \<open>t2\<close>, and with the
  second when \<open>t2\<close> is not after \<open>ta\<close>: an equal timestamp advances the cursor.
\<close>

theorem extract_session_data_pairing:
  assumes "user_timeline user_messages = [u1, u2]"
    and "u_timestamp u2 = Some t2"
    and "usage_and_model a = Some (usage, model)"
    and "e_timestamp a = Some ta"
  shows "extract_session_data [a] user_messages =
           [make_query a usage model (Some (if t2 \<le> ta then u2 else u1))]"
proof (cases "t2 \<le> ta")
  case True
  then have "next_not_after [u1, u2] (Some ta) 0" using assms(2) by (simp add: next_not_after_def)
  moreover have "\<not> next_not_after [u1, u2] (Some ta) 1" by (simp add: next_not_after_def)
  ultimately have "advance [u1, u2] (Some ta) 0 = 1"
    using advance_step [of "[u1, u2]" "Some ta" 0] advance_stop [of "[u1, u2]" "Some ta" 1] by simp
  with True assms show ?thesis by (simp add: extract_session_data_def)
next
  case False
  then have "\<not> next_not_after [u1, u2] (Some ta) 0" using assms(2) by (simp add: next_not_after_def)
  then have "advance [u1, u2] (Some ta) 0 = 0" by (rule advance_stop)
  with False assms show ?thesis by (simp add: extract_session_data_def)
qed

text \<open>
  User turns at 10 and 20: the assistant record at 15 is paired with the turn at 10, the
  assistant record at exactly 20 with the turn at 20.
\<close>

theorem extract_session_data_pairing_witness:
  "map (\<lambda>q. (q_userPrompt q, q_userTimestamp q))
     (extract_session_data
        [assistant_turn ''m1'' (Some ''claude-sonnet-4'') (Some ''15'') [(''output_tokens'', 7)]]
        [user_record ''first'' (Some ''10''), user_record ''second'' (Some ''20'')]) =
     [(Some ''first'', Some ''10'')] \<and>
   map (\<lambda>q. (q_userPrompt q, q_userTimestamp q))
     (extract_session_data
        [assistant_turn ''m2'' (Some ''claude-sonnet-4'') (Some ''20'') [(''output_tokens'', 7)]]
        [user_record ''first'' (Some ''10''), user_record ''second'' (Some ''20'')]) =
     [(Some ''second'', Some ''20'')]"
proof -
  let ?U = "[user_record ''first'' (Some ''10''), user_record ''second'' (Some ''20'')]"
  let ?u1 = "\<lparr>u_text = Some ''first'', u_timestamp = Some ''10'', u_uuid = None\<rparr>"
  let ?u2 = "\<lparr>u_text = Some ''second'', u_timestamp = Some ''20'', u_uuid = None\<rparr>"
  let ?a = "assistant_turn ''m1'' (Some ''claude-sonnet-4'') (Some ''15'') [(''output_tokens'', 7)]"
  let ?b = "assistant_turn ''m2'' (Some ''claude-sonnet-4'') (Some ''20'') [(''output_tokens'', 7)]"
  have tl: "user_timeline ?U = [?u1, ?u2]"
    by (simp add: user_record_def message_content_def)
  have t2: "u_timestamp ?u2 = Some ''20''" by simp
  have a: "usage_and_model ?a = Some ([(''output_tokens'', 7)], ''claude-sonnet-4'')"
    and b: "usage_and_model ?b = Some ([(''output_tokens'', 7)], ''claude-sonnet-4'')"
    by (simp_all add: usage_and_model_def assistant_turn_def)
  have ta: "e_timestamp ?a = Some ''15''" and tb: "e_timestamp ?b = Some ''20''"
    by (simp_all add: assistant_turn_def)
  show ?thesis
    using extract_session_data_pairing [OF tl t2 a ta] extract_session_data_pairing [OF tl t2 b tb]
    by (simp add: make_query_fields)
qed

lemma advance_ge: "i \<le> advance timeline ts i"
proof (induction timeline ts i rule: advance.induct)
  case (1 timeline ts i)
  show ?case
  proof (cases "next_not_after timeline ts i")
    case True
    with 1 show ?thesis by (simp add: advance_step)
  next
    case False
    then show ?thesis by (simp add: advance_stop)
  qed
qed

lemma advance_stops: "\<not> next_not_after timeline ts (advance timeline ts i)"
proof (induction timeline ts i rule: advance.induct)
  case (1 timeline ts i)
  show ?case
  proof (cases "next_not_after timeline ts i")
    case True
    with 1 show ?thesis by (simp add: advance_step)
  next
    case False
    then show ?thesis by (simp add: advance_stop)
  qed
qed

lemma advance_bound: "i < length timeline \<Longrightarrow> advance timeline ts i < length timeline"
proof (induction timeline ts i rule: advance.induct)
  case (1 timeline ts i)
  show ?case
  proof (cases "next_not_after timeline ts i")
    case True
    then have "i + 1 < length timeline" by (simp add: next_not_after_def)
    with 1 True show ?thesis by (simp add: advance_step)
  next
    case False
    with 1 show ?thesis by (simp add: advance_stop)
  qed
qed

lemma advance_moved:
  "i < advance timeline ts i \<Longrightarrow>
   not_after (u_timestamp (timeline ! advance timeline ts i)) ts"
proof (induction timeline ts i rule: advance.induct)
  case (1 timeline ts i)
  show ?case
  proof (cases "next_not_after timeline ts i")
    case True
    note step = advance_step [OF True]
    show ?thesis
    proof (cases "i + 1 < advance timeline ts (i + 1)")
      case True
      with 1(1) [OF \<open>next_not_after timeline ts i\<close>] step show ?thesis by simp
    next
      case False
      with advance_ge [of "i + 1" timeline ts] have "advance timeline ts (i + 1) = i + 1" by simp
      with step \<open>next_not_after timeline ts i\<close> show ?thesis
        by (auto simp: next_not_after_def split: option.splits)
    qed
  next
    case False
    with 1(2) show ?thesis by (simp add: advance_stop)
  qed
qed

lemma chronological_nth:
  assumes "chronological timeline" "i \<le> j" "j < length timeline"
  shows "\<exists>a b. u_timestamp (timeline ! i) = Some a \<and> u_timestamp (timeline ! j) = Some b \<and> a \<le> b"
proof -
  from assms have a: "has_timestamp (u_timestamp (timeline ! i))" and b: "has_timestamp (u_timestamp (timeline ! j))"
    by (simp_all add: chronological_def list_all_length)
  show ?thesis
  proof (cases "i = j")
    case True
    with a show ?thesis by (auto simp: has_timestamp_def)
  next
    case False
    with assms have "not_after (u_timestamp (timeline ! i)) (u_timestamp (timeline ! j))"
      by (simp add: chronological_def sorted_wrt_iff_nth_less)
    then show ?thesis by (auto elim: not_after.elims)
  qed
qed

lemma assistant_times_Cons:
  "assistant_times (e # entries) =
     (if usage_and_model e = None then assistant_times entries
      else case e_timestamp e of None \<Rightarrow> assistant_times entries | Some t \<Rightarrow> t # assistant_times entries)"
  by (simp add: assistant_times_def List.map_filter_simps split: option.split)

lemma pair_loop_nearest:
  assumes "chronological timeline"
    and "sorted (assistant_times entries)"
    and "i = 0 \<or> i < length timeline"
    and "i = 0 \<or> (\<forall>ta \<in> set (assistant_times entries). not_after (u_timestamp (timeline ! i)) (Some ta))"
    and "q \<in> set (pair_loop timeline i entries)"
    and "q_userTimestamp q = Some tu"
    and "q_assistantTimestamp q = Some ta"
    and "\<exists>u \<in> set timeline. not_after (u_timestamp u) (Some ta)"
  shows "tu \<le> ta \<and> (\<forall>u \<in> set timeline. not_after (Some tu) (u_timestamp u) \<longrightarrow> not_after (u_timestamp u) (Some ta) \<longrightarrow> u_timestamp u = Some tu)"
  using assms
proof (induction entries arbitrary: i)
  case Nil
  then show ?case by simp
next
  case (Cons e entries)
  show ?case
  proof (cases "usage_and_model e")
    case None
    with Cons.prems have "q \<in> set (pair_loop timeline i entries)" by simp
    moreover from None Cons.prems have "sorted (assistant_times entries)"
      and "i = 0 \<or> (\<forall>ta \<in> set (assistant_times entries). not_after (u_timestamp (timeline ! i)) (Some ta))"
      by (simp_all add: assistant_times_Cons)
    ultimately show ?thesis using Cons.IH [of i] Cons.prems by blast
  next
    case (Some um)
    obtain usage model where um: "um = (usage, model)" by (cases um)
    define k where "k = advance timeline (e_timestamp e) i"
    have ik: "i \<le> k" unfolding k_def by (rule advance_ge)
    have kb: "k = 0 \<or> k < length timeline"
      using Cons.prems(3) advance_bound [of i timeline "e_timestamp e"] ik
      unfolding k_def by (cases "i < length timeline") (auto simp: advance_stop next_not_after_def)
    have stop: "\<not> next_not_after timeline (e_timestamp e) k" unfolding k_def by (rule advance_stops)
    have moved: "i < k \<Longrightarrow> not_after (u_timestamp (timeline ! k)) (e_timestamp e)"
      unfolding k_def by (rule advance_moved)
    have times: "assistant_times (e # entries) =
        (case e_timestamp e of None \<Rightarrow> assistant_times entries | Some t \<Rightarrow> t # assistant_times entries)"
      using Some by (simp add: assistant_times_Cons)
    have sorted_rest: "sorted (assistant_times entries)"
      using Cons.prems(2) times by (auto split: option.splits)
    have inv: "k = 0 \<or> (\<forall>ta \<in> set (assistant_times (e # entries)). not_after (u_timestamp (timeline ! k)) (Some ta))"
    proof (cases "i < k")
      case True
      from moved [OF True] obtain a b where ab: "u_timestamp (timeline ! k) = Some a" "e_timestamp e = Some b" "a \<le> b"
        by (auto elim: not_after.elims)
      with Cons.prems(2) times show ?thesis by auto
    next
      case False
      with ik have "k = i" by simp
      with Cons.prems(4) show ?thesis by simp
    qed
    from Cons.prems(5) Some um
    consider (head) "q = make_query e usage model (if k < length timeline then Some (timeline ! k) else None)"
      | (tail) "q \<in> set (pair_loop timeline k entries)"
      by (auto simp: Let_def k_def)
    then show ?thesis
    proof cases
      case head
      with Cons.prems(6,7) have ts: "e_timestamp e = Some ta" and klen: "k < length timeline"
        and tu: "u_timestamp (timeline ! k) = Some tu"
        by (auto simp: make_query_fields split: if_splits)
      have le: "tu \<le> ta"
      proof (cases "k = 0")
        case True
        from Cons.prems(8) obtain j where j: "j < length timeline" "not_after (u_timestamp (timeline ! j)) (Some ta)"
          by (auto simp: in_set_conv_nth)
        from chronological_nth [OF Cons.prems(1) _ j(1), of 0] j(2) tu True show ?thesis by auto
      next
        case False
        with inv times ts tu show ?thesis by auto
      qed
      have "u_timestamp u = Some tu"
        if u: "u \<in> set timeline" "not_after (Some tu) (u_timestamp u)" "not_after (u_timestamp u) (Some ta)" for u
      proof -
        from u(1) obtain j where j: "j < length timeline" "u = timeline ! j" by (auto simp: in_set_conv_nth)
        from u(3) obtain t where t: "u_timestamp u = Some t" "t \<le> ta" by (auto elim: not_after.elims)
        from u(2) t have tut: "tu \<le> t" by simp
        show ?thesis
        proof (cases "j \<le> k")
          case True
          from chronological_nth [OF Cons.prems(1) True klen] j t tu have "t \<le> tu" by auto
          with tut t show ?thesis by simp
        next
          case False
          then have k1: "k + 1 \<le> j" by simp
          from chronological_nth [OF Cons.prems(1) k1 j(1)] j t
          obtain a where a: "u_timestamp (timeline ! (k + 1)) = Some a" "a \<le> t" by auto
          with t(2) j(1) k1 ts have "next_not_after timeline (e_timestamp e) k"
            by (simp add: next_not_after_def)
          with stop show ?thesis by simp
        qed
      qed
      with le show ?thesis by blast
    next
      case tail
      have inv': "k = 0 \<or> (\<forall>ta \<in> set (assistant_times entries). not_after (u_timestamp (timeline ! k)) (Some ta))"
        using inv times by (auto split: option.splits)
      show ?thesis
        using Cons.IH [OF Cons.prems(1) sorted_rest kb inv' tail Cons.prems(6,7,8)] .
    qed
  qed
qed

text \<open>
  C4, as the code has it. When the filtered user timeline is chronological (every turn
  has a timestamp and they never decrease) and the timestamps of the assistant records
  that yield a query never decrease, then for every query with both timestamps present
  whose assistant timestamp is not before every user turn, the paired user turn is the
  nearest preceding one: its timestamp is not after the assistant's, and no user turn
  has a later timestamp that is still not after the assistant's.
\<close>

theorem extract_session_data_nearest_preceding:
  assumes "chronological (user_timeline user_messages)"
    and "sorted (assistant_times assistant_entries)"
    and "q \<in> set (extract_session_data assistant_entries user_messages)"
    and "q_userTimestamp q = Some tu"
    and "q_assistantTimestamp q = Some ta"
    and "\<exists>u \<in> set (user_timeline user_messages). not_after (u_timestamp u) (Some ta)"
  shows "tu \<le> ta \<and>
         \<not> (\<exists>u \<in> set (user_timeline user_messages). \<exists>t. u_timestamp u = Some t \<and> tu < t \<and> t \<le> ta)"
proof -
  have "tu \<le> ta \<and>
        (\<forall>u \<in> set (user_timeline user_messages).
           not_after (Some tu) (u_timestamp u) \<longrightarrow> not_after (u_timestamp u) (Some ta) \<longrightarrow>
           u_timestamp u = Some tu)"
    using assms(3) unfolding extract_session_data_def
    by (intro pair_loop_nearest [OF assms(1,2) _ _ _ assms(4,5,6)]) simp_all
  then show ?thesis by fastforce
qed

text \<open>
  User turns at 10, 20 and 30, assistant records at 15 and 25: the second query is
  paired with the turn at 20.
\<close>

theorem extract_session_data_nearest_preceding_witness:
  "chronological
     (user_timeline [user_record ''first'' (Some ''10''), user_record ''second'' (Some ''20''),
                     user_record ''third'' (Some ''30'')]) \<and>
   sorted (assistant_times
     [assistant_turn ''m1'' (Some ''claude-sonnet-4'') (Some ''15'') [(''output_tokens'', 7)],
      assistant_turn ''m2'' (Some ''claude-sonnet-4'') (Some ''25'') [(''output_tokens'', 9)]]) \<and>
   map (\<lambda>q. (q_userTimestamp q, q_assistantTimestamp q))
     (extract_session_data
        [assistant_turn ''m1'' (Some ''claude-sonnet-4'') (Some ''15'') [(''output_tokens'', 7)],
         assistant_turn ''m2'' (Some ''claude-sonnet-4'') (Some ''25'') [(''output_tokens'', 9)]]
        [user_record ''first'' (Some ''10''), user_record ''second'' (Some ''20''),
         user_record ''third'' (Some ''30'')]) =
     [(Some ''10'', Some ''15''), (Some ''20'', Some ''25'')] \<and>
   ''20'' \<le> ''25'' \<and>
   \<not> (\<exists>u \<in> set (user_timeline [user_record ''first'' (Some ''10''), user_record ''second'' (Some ''20''),
                     user_record ''third'' (Some ''30'')]).
        \<exists>t. u_timestamp u = Some t \<and> ''20'' < t \<and> t \<le> ''25'')"
proof -
  let ?U = "[user_record ''first'' (Some ''10''), user_record ''second'' (Some ''20''),
             user_record ''third'' (Some ''30'')]"
  let ?A = "[assistant_turn ''m1'' (Some ''claude-sonnet-4'') (Some ''15'') [(''output_tokens'', 7)],
             assistant_turn ''m2'' (Some ''claude-sonnet-4'') (Some ''25'') [(''output_tokens'', 9)]]"
  let ?u2 = "\<lparr>u_text = Some ''second'', u_timestamp = Some ''20'', u_uuid = None\<rparr>"
  let ?q = "make_query (assistant_turn ''m2'' (Some ''claude-sonnet-4'') (Some ''25'') [(''output_tokens'', 9)])
              [(''output_tokens'', 9)] ''claude-sonnet-4'' (Some ?u2)"
  have tl: "user_timeline ?U =
      [\<lparr>u_text = Some ''first'', u_timestamp = Some ''10'', u_uuid = None\<rparr>, ?u2,
       \<lparr>u_text = Some ''third'', u_timestamp = Some ''30'', u_uuid = None\<rparr>]"
    by (simp add: user_record_def message_content_def)
  have c: "chronological (user_timeline ?U)"
    unfolding tl by (simp add: chronological_def has_timestamp_def)
  have s: "sorted (assistant_times ?A)"
    by (simp add: assistant_times_def List.map_filter_simps usage_and_model_def assistant_turn_def)
  have ex: "map (\<lambda>q. (q_userTimestamp q, q_assistantTimestamp q)) (extract_session_data ?A ?U) =
     [(Some ''10'', Some ''15''), (Some ''20'', Some ''25'')]"
    by (simp add: extract_eval)
  have m: "?q \<in> set (extract_session_data ?A ?U)"
    unfolding extract_session_data_def tl
    by (simp add: usage_and_model_def assistant_turn_def advance.simps next_not_after_def)
  have tu: "q_userTimestamp ?q = Some ''20''" and ta: "q_assistantTimestamp ?q = Some ''25''"
    by (simp_all add: make_query_fields assistant_turn_def)
  have p: "\<exists>u \<in> set (user_timeline ?U). not_after (u_timestamp u) (Some ''25'')"
    unfolding tl by simp
  note r = extract_session_data_nearest_preceding [OF c s m tu ta p]
  show ?thesis
    by (intro conjI c s ex conjunct1 [OF r] conjunct2 [OF r])
qed

text \<open>
  C4 as stated fails, in three ways. The cursor starts on the first user turn, so an
  assistant record at 05 before the only user turn at 10 is paired with it. The cursor
  never moves back and the deduplicated records keep the place of their first
  occurrence: in the file below the identity \<^verbatim>\<open>a\<close> recurs at 31, is listed first and
  moves the cursor to the turn at 30, which the record at 21 is then paired with. A user
  turn without a timestamp stops the cursor: the record at 25 is paired with the turn at
  10 although there is a turn at 20.
\<close>

theorem extract_session_data_nearest_counterexample:
  "map (\<lambda>q. (q_userTimestamp q, q_assistantTimestamp q))
     (extract_session_data
        [assistant_turn ''m1'' (Some ''claude-sonnet-4'') (Some ''05'') [(''output_tokens'', 7)]]
        [user_record ''first'' (Some ''10'')]) = [(Some ''10'', Some ''05'')] \<and>
   \<not> ''10'' \<le> ''05'' \<and>
   (case parse_jsonl_file
      (Some [Parsed (user_record ''first'' (Some ''10'')),
             Parsed (assistant_turn ''a'' (Some ''claude-sonnet-4'') (Some ''11'') [(''output_tokens'', 1)]),
             Parsed (user_record ''second'' (Some ''20'')),
             Parsed (assistant_turn ''b'' (Some ''claude-sonnet-4'') (Some ''21'') [(''output_tokens'', 2)]),
             Parsed (user_record ''third'' (Some ''30'')),
             Parsed (assistant_turn ''a'' (Some ''claude-sonnet-4'') (Some ''31'') [(''output_tokens'', 3)])]) of
      Inl err \<Rightarrow> []
    | Inr p \<Rightarrow>
        map (\<lambda>q. (q_userTimestamp q, q_assistantTimestamp q))
          (extract_session_data (assistantEntries p) (userMessages p))) =
     [(Some ''30'', Some ''31''), (Some ''30'', Some ''21'')] \<and>
   \<not> ''30'' \<le> ''21'' \<and>
   map (\<lambda>q. (q_userTimestamp q, q_assistantTimestamp q))
     (extract_session_data
        [assistant_turn ''m1'' (Some ''claude-sonnet-4'') (Some ''25'') [(''output_tokens'', 7)]]
        [user_record ''first'' (Some ''10''), user_record ''second'' None,
         user_record ''third'' (Some ''20'')]) = [(Some ''10'', Some ''25'')] \<and>
   ''10'' < ''20'' \<and> ''20'' \<le> ''25''"
  by (simp add: extract_eval parse_jsonl_file_def)

section \<open>Properties of the scan\<close>

subsection \<open>Fingerprints\<close>

lemma digit_no_colon: "m < 10 \<Longrightarrow> CHR '':'' \<noteq> ''0123456789'' ! m"
proof -
  assume "m < 10"
  then have "''0123456789'' ! m \<in> set ''0123456789''" by (intro nth_mem) simp
  then show ?thesis by auto
qed

lemma str_nat_no_colon: "CHR '':'' \<notin> set (str_nat n)"
proof (induction n rule: str_nat.induct)
  case (1 n)
  show ?case
  proof (cases "n < 10")
    case True
    then show ?thesis by (subst str_nat.simps) (simp add: digit_no_colon)
  next
    case False
    with 1 have "CHR '':'' \<notin> set (str_nat (n div 10))" by simp
    moreover have "CHR '':'' \<noteq> ''0123456789'' ! (n mod 10)" by (rule digit_no_colon) simp
    ultimately show ?thesis using False by (subst str_nat.simps) simp
  qed
qed

lemma str_int_no_colon: "CHR '':'' \<notin> set (str_int i)"
  by (simp add: str_int_def str_nat_no_colon)

lemma colon_split:
  "CHR '':'' \<notin> set a \<Longrightarrow> CHR '':'' \<notin> set b \<Longrightarrow> p @ CHR '':'' # a = q @ CHR '':'' # b \<Longrightarrow>
   p = q \<and> a = b"
proof (induction p arbitrary: q)
  case Nil
  then show ?case by (cases q) auto
next
  case (Cons x p)
  show ?case
  proof (cases q)
    case Nil
    with Cons.prems show ?thesis by auto
  next
    case (Cons y q')
    with Cons.prems Cons.IH [of q'] show ?thesis by simp
  qed
qed

lemma cache_key_path:
  assumes "cache_key f = Some k" "cache_key g = Some k"
  shows "f_path f = f_path g"
proof -
  from assms obtain a b c d where
    f: "k = f_path f @ CHR '':'' # (str_int a @ CHR '':'' # str_int b)" and
    g: "k = f_path g @ CHR '':'' # (str_int c @ CHR '':'' # str_int d)"
    by (auto simp: cache_key_def split: option.splits prod.splits)
  have "(f_path f @ CHR '':'' # str_int a) @ CHR '':'' # str_int b =
        (f_path g @ CHR '':'' # str_int c) @ CHR '':'' # str_int d"
    using f g by simp
  then have "f_path f @ CHR '':'' # str_int a = f_path g @ CHR '':'' # str_int c"
    using colon_split [OF str_int_no_colon str_int_no_colon] by blast
  then show ?thesis
    using colon_split [OF str_int_no_colon str_int_no_colon] by blast
qed

lemma cache_key_nonempty: "cache_key f = Some k \<Longrightarrow> k \<noteq> []"
  by (auto simp: cache_key_def split: option.splits prod.splits)

subsection \<open>The loop over the files, component by component\<close>

lemma cache_hit_eq:
  "cache_hit cache f = (case cache_key f of None \<Rightarrow> None | Some k \<Rightarrow> if k \<noteq> [] then map_of cache k else None)"
  by (auto simp: cache_hit_def dest: cache_key_nonempty split: option.splits)

lemma parse_miss_eq:
  "parse_miss (cache_key f) f st =
     (parsed_queries f,
      st\<lparr>new_cache := (case cache_key f of
                          None \<Rightarrow> new_cache st
                        | Some k \<Rightarrow> (case parsed_queries f of
                                       None \<Rightarrow> new_cache st
                                     | Some queries \<Rightarrow> set_item (new_cache st) (k, queries))),
         parsed_log := parsed_log st @ [f_path f]\<rparr>)"
  by (auto simp: parse_miss_def parsed_queries_def set_item_def Let_def
      dest: cache_key_nonempty split: sum.splits option.splits)

lemma load_queries_eq:
  "load_queries cache f st =
     (file_queries cache f,
      st\<lparr>new_cache := (case recorded cache f of
                          None \<Rightarrow> new_cache st
                        | Some kv \<Rightarrow> set_item (new_cache st) kv),
         parsed_log := parsed_log st @ (if cache_hit cache f = None then [f_path f] else [])\<rparr>)"
proof (cases "cache_hit cache f")
  case None
  then have "load_queries cache f st = parse_miss (cache_key f) f st"
    by (auto simp: load_queries_def cache_hit_eq Let_def split: option.splits if_splits)
  with None show ?thesis
    by (simp add: parse_miss_eq file_queries_def recorded_def split: option.splits)
next
  case (Some queries)
  then obtain k where k: "cache_key f = Some k" "k \<noteq> []" "map_of cache k = Some queries"
    by (auto simp: cache_hit_eq split: option.splits if_splits)
  with Some show ?thesis
    by (simp add: load_queries_def file_queries_def recorded_def set_item_def Let_def)
qed

lemma process_file_rollups:
  "rollups (process_file cache history p st f) =
     (case emitted cache (p, f) of None \<Rightarrow> rollups st | Some pq \<Rightarrow> add_session history (rollups st) pq)"
  by (simp add: process_file_def load_queries_eq emitted_def add_session_def split: option.splits)

lemma process_file_new_cache:
  "new_cache (process_file cache history p st f) =
     (case recorded cache f of None \<Rightarrow> new_cache st | Some kv \<Rightarrow> set_item (new_cache st) kv)"
  by (simp add: process_file_def load_queries_eq split: option.splits)

lemma process_file_parsed_log:
  "parsed_log (process_file cache history p st f) =
     parsed_log st @ (if cache_hit cache f = None then [f_path f] else [])"
  by (simp add: process_file_def load_queries_eq split: option.splits)

lemma scan_loop_rollups:
  "rollups (scan_loop cache history st items) =
     foldl (add_session history) (rollups st) (List.map_filter (emitted cache) items)"
proof (induction items arbitrary: st)
  case Nil
  show ?case by (simp add: scan_loop_def List.map_filter_simps)
next
  case (Cons pf items)
  show ?case
    using Cons.IH [of "process_file cache history (fst pf) st (snd pf)"]
    by (simp add: scan_loop_def List.map_filter_simps process_file_rollups split: option.splits)
qed

lemma scan_loop_new_cache:
  "new_cache (scan_loop cache history st items) =
     foldl set_item (new_cache st) (List.map_filter (\<lambda>pf. recorded cache (snd pf)) items)"
proof (induction items arbitrary: st)
  case Nil
  show ?case by (simp add: scan_loop_def List.map_filter_simps)
next
  case (Cons pf items)
  show ?case
    using Cons.IH [of "process_file cache history (fst pf) st (snd pf)"]
    by (simp add: scan_loop_def List.map_filter_simps process_file_new_cache split: option.splits)
qed

lemma scan_loop_parsed_log:
  "parsed_log (scan_loop cache history st items) =
     parsed_log st @ map (\<lambda>pf. f_path (snd pf)) (filter (\<lambda>pf. cache_hit cache (snd pf) = None) items)"
proof (induction items arbitrary: st)
  case Nil
  show ?case by (simp add: scan_loop_def)
next
  case (Cons pf items)
  show ?case
    using Cons.IH [of "process_file cache history (fst pf) st (snd pf)"]
    by (simp add: scan_loop_def process_file_parsed_log)
qed

lemma scan_loop_append:
  "scan_loop cache history st (xs @ ys) = scan_loop cache history (scan_loop cache history st xs) ys"
  by (simp add: scan_loop_def)

lemma process_project_scan_loop:
  "process_project cache history st d =
     scan_loop cache history st
       (case dir_files d of
          None \<Rightarrow> []
        | Some entries \<Rightarrow> map (Pair (dir_name d)) (filter (\<lambda>f. f_suffix f = ''.jsonl'') entries))"
  by (simp add: process_project_def scan_loop_def foldl_map split: option.splits)

lemma projects_scan_loop:
  "foldl (process_project cache history) st (filter dir_is_dir ds) =
     scan_loop cache history st (scanned_files ds)"
proof (induction ds arbitrary: st)
  case Nil
  show ?case by (simp add: scanned_files_def scan_loop_def)
next
  case (Cons d ds)
  have c: "scanned_files (d # ds) =
      (if dir_is_dir d
       then (case dir_files d of
               None \<Rightarrow> []
             | Some entries \<Rightarrow> map (Pair (dir_name d)) (filter (\<lambda>f. f_suffix f = ''.jsonl'') entries))
            @ scanned_files ds
       else scanned_files ds)"
    by (simp add: scanned_files_def)
  show ?case
    using Cons.IH by (simp add: c scan_loop_append process_project_scan_loop)
qed

subsection \<open>The scan as a function of what each file yields\<close>

lemma finish_no_rollups: "finish no_rollups = empty_result"
  by (simp add: finish_def no_rollups_def empty_result_def make_totals_def Let_def)

lemma foldl_set_item_distinct:
  "distinct (map fst (al @ kvs)) \<Longrightarrow> foldl set_item al kvs = al @ kvs"
proof (induction kvs arbitrary: al)
  case Nil
  show ?case by simp
next
  case (Cons kv kvs)
  from Cons.prems have "fst kv \<notin> fst ` set al" by auto
  then have "set_item al kv = al @ [kv]"
    by (induction al) (auto simp: set_item_def)
  with Cons.IH [of "al @ [kv]"] Cons.prems show ?case by simp
qed

lemma recorded_key: "recorded cache f = Some (k, queries) \<Longrightarrow> cache_key f = Some k"
  by (auto simp: recorded_def split: option.splits)

lemma distinct_recorded:
  "distinct (map (\<lambda>pf. f_path (snd pf)) items) \<Longrightarrow>
   distinct (map fst (List.map_filter (\<lambda>pf. recorded cache (snd pf)) items))"
proof (induction items)
  case Nil
  show ?case by (simp add: List.map_filter_simps)
next
  case (Cons pf items)
  show ?case
  proof (cases "recorded cache (snd pf)")
    case None
    with Cons show ?thesis by (simp add: List.map_filter_simps)
  next
    case (Some kv)
    obtain k queries where kv: "kv = (k, queries)" by (cases kv)
    have "k \<notin> fst ` set (List.map_filter (\<lambda>pf. recorded cache (snd pf)) items)"
    proof
      assume "k \<in> fst ` set (List.map_filter (\<lambda>pf. recorded cache (snd pf)) items)"
      then obtain pg qs where g: "pg \<in> set items" "recorded cache (snd pg) = Some (k, qs)"
        by (auto simp: List.map_filter_def)
      with Some kv have "f_path (snd pf) = f_path (snd pg)"
        by (auto dest!: recorded_key intro: cache_key_path)
      with g(1) Cons.prems show False by force
    qed
    with Cons Some kv show ?thesis by (simp add: List.map_filter_simps)
  qed
qed

lemma scan_new_cache_distinct:
  "distinct (map (\<lambda>pf. f_path (snd pf)) items) \<Longrightarrow>
   new_cache (scan_loop cache history \<lparr>new_cache = [], rollups = r, parsed_log = l\<rparr> items) =
     List.map_filter (\<lambda>pf. recorded cache (snd pf)) items"
  using foldl_set_item_distinct [of "[]" "List.map_filter (\<lambda>pf. recorded cache (snd pf)) items"]
    distinct_recorded [of items cache]
  by (simp add: scan_loop_new_cache)

lemma parse_all_sessions_result:
  "result (parse_all_sessions force_refresh e) =
     finish (foldl (add_session (session_first_prompt e)) no_rollups
               (List.map_filter (emitted (scan_cache force_refresh e)) (scan_files e)))"
  by (cases "projects_dir e")
     (simp_all add: parse_all_sessions_def scan_files_def scan_cache_def finish_no_rollups
        projects_scan_loop scan_loop_rollups List.map_filter_simps Let_def)

lemma parse_all_sessions_parsed_files:
  "parsed_files (parse_all_sessions force_refresh e) =
     map (\<lambda>pf. f_path (snd pf))
       (filter (\<lambda>pf. cache_hit (scan_cache force_refresh e) (snd pf) = None) (scan_files e))"
  by (cases "projects_dir e")
     (simp_all add: parse_all_sessions_def scan_files_def scan_cache_def
        projects_scan_loop scan_loop_parsed_log Let_def)

lemma parse_all_sessions_cache_after:
  "distinct (map (\<lambda>pf. f_path (snd pf)) (scan_files e)) \<Longrightarrow>
   cache_after (parse_all_sessions force_refresh e) =
     (case projects_dir e of
        Listing ds \<Rightarrow>
          if cache_writable e
          then Some (List.map_filter (\<lambda>pf. recorded (scan_cache force_refresh e) (snd pf)) (scan_files e))
          else cache_file e
      | _ \<Rightarrow> cache_file e)"
  by (cases "projects_dir e")
     (simp_all add: parse_all_sessions_def scan_files_def scan_cache_def save_cache_def
        projects_scan_loop scan_new_cache_distinct Let_def)

subsection \<open>The empty snapshot\<close>

lemmas scan_eval =
  sample_env_def sample_file_def scan_files_def scanned_files_def scan_cache_def load_cache_def
  file_queries_def cache_hit_def cache_key_def str_int_def str_nat.simps parsed_queries_def
  parse_jsonl_file_def recorded_def emitted_def List.map_filter_simps

lemma no_queries_emitted:
  "list_all (\<lambda>pf. file_queries cache (snd pf) = None \<or> file_queries cache (snd pf) = Some []) items \<Longrightarrow>
   List.map_filter (emitted cache) items = []"
  by (induction items) (auto simp: List.map_filter_simps emitted_def)

lemma parse_all_sessions_no_queries:
  "projects_dir e = Absent \<or> projects_dir e = Unlistable \<or>
   list_all (\<lambda>pf. file_queries (scan_cache force_refresh e) (snd pf) = None \<or>
                  file_queries (scan_cache force_refresh e) (snd pf) = Some []) (scan_files e) \<Longrightarrow>
   result (parse_all_sessions force_refresh e) = empty_result"
proof -
  assume "projects_dir e = Absent \<or> projects_dir e = Unlistable \<or>
   list_all (\<lambda>pf. file_queries (scan_cache force_refresh e) (snd pf) = None \<or>
                  file_queries (scan_cache force_refresh e) (snd pf) = Some []) (scan_files e)"
  then have "list_all (\<lambda>pf. file_queries (scan_cache force_refresh e) (snd pf) = None \<or>
                  file_queries (scan_cache force_refresh e) (snd pf) = Some []) (scan_files e)"
    by (auto simp: scan_files_def)
  then have "List.map_filter (emitted (scan_cache force_refresh e)) (scan_files e) = []"
    by (rule no_queries_emitted)
  then show ?thesis
    by (simp add: parse_all_sessions_result finish_no_rollups)
qed

text \<open>
  C8. The claim fails on the code when the cache file holds valid JSON that is not an
  object. Take a projects directory with one session file, empty, and a cache file that
  holds \<^verbatim>\<open>null\<close>. \<^verbatim>\<open>_load_cache\<close> returns \<^verbatim>\<open>None\<close>; the file has the fingerprint
  \<^verbatim>\<open>p/s1.jsonl:17:0\<close>, and the test \<^verbatim>\<open>ck and ck in cache\<close> of the first pass through the
  loop raises \<^verbatim>\<open>TypeError\<close>, which nothing catches. With the cache file missing, the scan
  of the same directory returns the empty snapshot, as the claim says.
\<close>

theorem parse_all_sessions_null_cache:
  "load_cache_raw (Some JNull) = JNull \<and>
   cache_key (sample_file ''s1'' (Some (17, 0)) (Some [])) = Some ''p/s1.jsonl:17:0'' \<and>
   cache_test (load_cache_raw (Some JNull)) (cache_key (sample_file ''s1'' (Some (17, 0)) (Some []))) =
     Inl TypeError \<and>
   cache_test (load_cache_raw None) (cache_key (sample_file ''s1'' (Some (17, 0)) (Some []))) =
     Inr False \<and>
   result (parse_all_sessions False (sample_env [sample_file ''s1'' (Some (17, 0)) (Some [])] None)) =
     empty_result"
proof -
  let ?f = "sample_file ''s1'' (Some (17, 0)) (Some [])"
  let ?e = "sample_env [?f] None"
  have 1: "load_cache_raw (Some JNull) = JNull" by (simp add: load_cache_raw_def)
  have 2: "cache_key ?f = Some ''p/s1.jsonl:17:0''" by (simp add: scan_eval)
  have 3: "cache_test (load_cache_raw (Some JNull)) (cache_key ?f) = Inl TypeError"
    unfolding 1 2 by (simp add: cache_test_def)
  have 4: "cache_test (load_cache_raw None) (cache_key ?f) = Inr False"
    unfolding 2 by (simp add: cache_test_def load_cache_raw_def)
  have "list_all (\<lambda>pf. file_queries (scan_cache False ?e) (snd pf) = None \<or>
                  file_queries (scan_cache False ?e) (snd pf) = Some []) (scan_files ?e)"
    by (simp add: scan_eval)
  then have 5: "result (parse_all_sessions False ?e) = empty_result"
    by (simp add: parse_all_sessions_no_queries)
  show ?thesis by (intro conjI 1 2 3 4 5)
qed

section \<open>Properties of the aggregation\<close>

lemma sum_list_insort_key:
  "sum_list (map f (insort_key k x xs)) = f x + sum_list (map f xs)"
  for f :: "'a \<Rightarrow> int"
  by (induction xs) simp_all

lemma sum_list_sort_key:
  "sum_list (map f (sort_key k xs)) = sum_list (map f xs)"
  for f :: "'a \<Rightarrow> int"
  by (induction xs) (simp_all add: sum_list_insort_key)

lemma sum_list_update:
  "sum_list (map (\<lambda>kv. g (snd kv)) (AList.update k v al)) =
     sum_list (map (\<lambda>kv. g (snd kv)) al) + g v - (case map_of al k of None \<Rightarrow> 0 | Some old \<Rightarrow> g old)"
  for g :: "'v \<Rightarrow> int"
  by (induction al) auto

lemma add_daily_total:
  "sum_list (map (\<lambda>kv. d_totalTokens (snd kv))
     (add_daily date i out cc cr tt c n daily_map)) =
   sum_list (map (\<lambda>kv. d_totalTokens (snd kv)) daily_map) + (if date \<noteq> ''unknown'' then tt else 0)"
  by (simp add: add_daily_def sum_list_update Let_def split: option.splits)

lemma add_model_total:
  "sum_list (map (\<lambda>kv. mr_totalTokens (snd kv)) (add_model model_map q)) =
   sum_list (map (\<lambda>kv. mr_totalTokens (snd kv)) model_map) +
     (if q_model q = ''<synthetic>'' \<or> q_model q = ''unknown'' then 0 else q_totalTokens q)"
  by (simp add: add_model_def sum_list_update Let_def split: option.splits)

lemma foldl_add_model_total:
  "sum_list (map (\<lambda>kv. mr_totalTokens (snd kv)) (foldl add_model model_map queries)) =
   sum_list (map (\<lambda>kv. mr_totalTokens (snd kv)) model_map) +
     sum_list (map (\<lambda>q. if q_model q = ''<synthetic>'' \<or> q_model q = ''unknown'' then 0 else q_totalTokens q) queries)"
  by (induction queries arbitrary: model_map) (simp_all add: add_model_total)

lemma make_session_tokens:
  "s_totalTokens (make_session history p sid queries) =
     s_inputTokens (make_session history p sid queries) +
     s_cacheCreationTokens (make_session history p sid queries) +
     s_cacheReadTokens (make_session history p sid queries) +
     s_outputTokens (make_session history p sid queries)"
  "s_inputTokens (make_session history p sid queries) = sum_list (map q_inputTokens queries)"
  "s_cacheCreationTokens (make_session history p sid queries) = sum_list (map q_cacheCreationTokens queries)"
  "s_cacheReadTokens (make_session history p sid queries) = sum_list (map q_cacheReadTokens queries)"
  "s_outputTokens (make_session history p sid queries) = sum_list (map q_outputTokens queries)"
  by (simp_all add: make_session_def Let_def split: prod.splits)

lemma add_session_sessions:
  "r_sessions (add_session history r pq) = r_sessions r @ [session_of history pq]"
  by (simp add: add_session_def aggregate_session_def session_of_def Let_def)

lemma add_session_daily:
  "sum_list (map (\<lambda>kv. d_totalTokens (snd kv)) (r_daily_map (add_session history r pq))) =
   sum_list (map (\<lambda>kv. d_totalTokens (snd kv)) (r_daily_map r)) +
     (if known_date (session_of history pq) then s_totalTokens (session_of history pq) else 0)"
  by (simp add: add_session_def aggregate_session_def session_of_def known_date_def Let_def
      add_daily_total)

lemma add_session_model:
  "sum_list (map (\<lambda>kv. mr_totalTokens (snd kv)) (r_model_map (add_session history r pq))) =
   sum_list (map (\<lambda>kv. mr_totalTokens (snd kv)) (r_model_map r)) +
     sum_list (map (\<lambda>q. if q_model q = ''<synthetic>'' \<or> q_model q = ''unknown'' then 0 else q_totalTokens q)
       (snd (snd pq)))"
  by (simp add: add_session_def aggregate_session_def Let_def foldl_add_model_total)

lemma foldl_add_session_sessions:
  "r_sessions (foldl (add_session history) r pqs) = r_sessions r @ map (session_of history) pqs"
  by (induction pqs arbitrary: r) (simp_all add: add_session_sessions)

lemma foldl_add_session_daily:
  "sum_list (map (\<lambda>kv. d_totalTokens (snd kv)) (r_daily_map (foldl (add_session history) r pqs))) =
   sum_list (map (\<lambda>kv. d_totalTokens (snd kv)) (r_daily_map r)) +
     sum_list (map (\<lambda>pq. if known_date (session_of history pq) then s_totalTokens (session_of history pq) else 0) pqs)"
  by (induction pqs arbitrary: r) (simp_all add: add_session_daily)

lemma foldl_add_session_model:
  "sum_list (map (\<lambda>kv. mr_totalTokens (snd kv)) (r_model_map (foldl (add_session history) r pqs))) =
   sum_list (map (\<lambda>kv. mr_totalTokens (snd kv)) (r_model_map r)) +
     sum_list (map (\<lambda>pq. sum_list (map (\<lambda>q. if q_model q = ''<synthetic>'' \<or> q_model q = ''unknown'' then 0 else q_totalTokens q)
       (snd (snd pq)))) pqs)"
  by (induction pqs arbitrary: r) (simp_all add: add_session_model)

lemma session_of_total:
  "s_totalTokens (session_of history pq) =
     sum_list (map (\<lambda>q. q_inputTokens q + q_cacheCreationTokens q + q_cacheReadTokens q + q_outputTokens q)
       (snd (snd pq)))"
  by (simp add: session_of_def make_session_tokens sum_list_addf)

lemma make_totals_total:
  "totalTokens (make_totals ss) =
     sum_list (map s_inputTokens ss) + sum_list (map s_outputTokens ss) +
     sum_list (map s_cacheCreationTokens ss) + sum_list (map s_cacheReadTokens ss)"
  by (simp add: make_totals_def Let_def)

lemma sessions_total:
  "sum_list (map s_totalTokens (map (session_of history) pqs)) =
     sum_list (map s_inputTokens (map (session_of history) pqs)) +
     sum_list (map s_outputTokens (map (session_of history) pqs)) +
     sum_list (map s_cacheCreationTokens (map (session_of history) pqs)) +
     sum_list (map s_cacheReadTokens (map (session_of history) pqs))"
  by (induction pqs) (simp_all add: session_of_def make_session_tokens(1))

lemma finish_fields:
  "sessions (finish r) = sort_key (\<lambda>s. - s_totalTokens s) (r_sessions r)"
  "dailyUsage (finish r) = sort_key d_date (map snd (r_daily_map r))"
  "modelBreakdown (finish r) = sort_key (\<lambda>m. - mr_totalTokens m) (map snd (r_model_map r))"
  "totals (finish r) = make_totals (sort_key (\<lambda>s. - s_totalTokens s) (r_sessions r))"
  by (simp_all add: finish_def Let_def)

lemma emitted_queries:
  "pq \<in> set (List.map_filter (emitted (scan_cache force_refresh e)) (scan_files e)) \<Longrightarrow>
   set (snd (snd pq)) \<subseteq> set (scan_queries force_refresh e)"
  by (auto simp: List.map_filter_def emitted_def scan_queries_def split: option.splits if_splits)

text \<open>
  C1, as the code has it. For every scan, the total tokens of the totals equal the sum
  of the total tokens of the emitted sessions. They equal the sum over the daily rollups
  when every emitted session has a known date (a session dated \<^verbatim>\<open>unknown\<close> enters no
  daily rollup), and the sum over the model rollups when every query the scan loads is
  attributed to a model and carries the sum of its four counts as total (a query of
  model \<^verbatim>\<open>unknown\<close> or \<^verbatim>\<open><synthetic>\<close> enters no model rollup, and the model rollups
  add the stored totals of the queries).
\<close>

theorem rollup_consistency:
  assumes "snap = result (parse_all_sessions force_refresh e)"
  shows "totalTokens (totals snap) = sum_list (map s_totalTokens (sessions snap)) \<and>
         (list_all known_date (sessions snap) \<longrightarrow>
            sum_list (map d_totalTokens (dailyUsage snap)) = totalTokens (totals snap)) \<and>
         (list_all attributed (scan_queries force_refresh e) \<longrightarrow>
            sum_list (map mr_totalTokens (modelBreakdown snap)) = totalTokens (totals snap))"
proof -
  let ?h = "session_first_prompt e"
  let ?pqs = "List.map_filter (emitted (scan_cache force_refresh e)) (scan_files e)"
  let ?R = "foldl (add_session ?h) no_rollups ?pqs"
  let ?ss = "map (session_of ?h) ?pqs"
  have snap: "snap = finish ?R" using assms by (simp add: parse_all_sessions_result)
  have ss: "r_sessions ?R = ?ss"
    by (simp add: foldl_add_session_sessions no_rollups_def)
  have total: "totalTokens (totals snap) = sum_list (map s_totalTokens ?ss)"
    unfolding snap finish_fields ss make_totals_total sum_list_sort_key
    by (simp only: sessions_total)
  have 1: "totalTokens (totals snap) = sum_list (map s_totalTokens (sessions snap))"
    unfolding total unfolding snap finish_fields ss sum_list_sort_key ..
  have daily: "sum_list (map d_totalTokens (dailyUsage snap)) =
      sum_list (map (\<lambda>pq. if known_date (session_of ?h pq) then s_totalTokens (session_of ?h pq) else 0) ?pqs)"
    unfolding snap finish_fields sum_list_sort_key
    using foldl_add_session_daily [of ?h no_rollups ?pqs]
    by (simp add: no_rollups_def comp_def)
  have 2: "sum_list (map d_totalTokens (dailyUsage snap)) = totalTokens (totals snap)"
    if "list_all known_date (sessions snap)"
  proof -
    from that have "\<forall>pq \<in> set ?pqs. known_date (session_of ?h pq)"
      unfolding snap finish_fields ss by (simp add: list_all_iff)
    then have "map (\<lambda>pq. if known_date (session_of ?h pq) then s_totalTokens (session_of ?h pq) else 0) ?pqs =
               map s_totalTokens ?ss"
      by simp
    with daily total show ?thesis by simp
  qed
  have model: "sum_list (map mr_totalTokens (modelBreakdown snap)) =
      sum_list (map (\<lambda>pq. sum_list (map (\<lambda>q. if q_model q = ''<synthetic>'' \<or> q_model q = ''unknown'' then 0 else q_totalTokens q)
        (snd (snd pq)))) ?pqs)"
    unfolding snap finish_fields sum_list_sort_key
    using foldl_add_session_model [of ?h no_rollups ?pqs]
    by (simp add: no_rollups_def comp_def)
  have 3: "sum_list (map mr_totalTokens (modelBreakdown snap)) = totalTokens (totals snap)"
    if "list_all attributed (scan_queries force_refresh e)"
  proof -
    have "sum_list (map (\<lambda>q. if q_model q = ''<synthetic>'' \<or> q_model q = ''unknown'' then 0 else q_totalTokens q)
              (snd (snd pq))) = s_totalTokens (session_of ?h pq)"
      if "pq \<in> set ?pqs" for pq
    proof -
      from emitted_queries [OF that] \<open>list_all attributed (scan_queries force_refresh e)\<close>
      have "\<forall>q \<in> set (snd (snd pq)). attributed q" by (auto simp: list_all_iff)
      then have "map (\<lambda>q. if q_model q = ''<synthetic>'' \<or> q_model q = ''unknown'' then 0 else q_totalTokens q)
              (snd (snd pq)) =
            map (\<lambda>q. q_inputTokens q + q_cacheCreationTokens q + q_cacheReadTokens q + q_outputTokens q)
              (snd (snd pq))"
        by (simp add: attributed_def)
      then show ?thesis by (simp only: session_of_total)
    qed
    then have "map (\<lambda>pq. sum_list (map (\<lambda>q. if q_model q = ''<synthetic>'' \<or> q_model q = ''unknown'' then 0 else q_totalTokens q)
        (snd (snd pq)))) ?pqs = map s_totalTokens ?ss"
      by simp
    with model total show ?thesis by simp
  qed
  from 1 2 3 show ?thesis by blast
qed

lemmas aggregate_eval =
  add_session_def aggregate_session_def make_session_def finish_def make_totals_def
  no_rollups_def session_date_def session_primary_model_def session_first_prompt_text_def
  first_truthy_def count_up_def group_prompts_def group_query_def flush_prompt_def
  add_daily_def add_model_def add_project_def py_round_def

text \<open>
  C1 as stated fails: a session file whose only assistant record has 5 input tokens, no
  model and no timestamp gives a total of 5 tokens, no daily rollup and no model rollup.
\<close>

theorem rollup_consistency_counterexample:
  "totalTokens (totals (result (parse_all_sessions False
     (sample_env
        [sample_file ''s1'' (Some (17, 120))
           (Some [Parsed (assistant_turn ''m1'' None None [(''input_tokens'', 5)])])] None)))) = 5 \<and>
   sum_list (map d_totalTokens (dailyUsage (result (parse_all_sessions False
     (sample_env
        [sample_file ''s1'' (Some (17, 120))
           (Some [Parsed (assistant_turn ''m1'' None None [(''input_tokens'', 5)])])] None))))) = 0 \<and>
   sum_list (map mr_totalTokens (modelBreakdown (result (parse_all_sessions False
     (sample_env
        [sample_file ''s1'' (Some (17, 120))
           (Some [Parsed (assistant_turn ''m1'' None None [(''input_tokens'', 5)])])] None))))) = 0"
  by (simp add: parse_all_sessions_result scan_eval extract_eval aggregate_eval)


text \<open>
  A session of one prompt and one sonnet turn of 3 input and 7 output tokens, dated
  2025-01-02: the three sums are 10.
\<close>

theorem rollup_consistency_witness:
  "list_all known_date (sessions (result (parse_all_sessions False
     (sample_env
        [sample_file ''s1'' (Some (17, 120))
           (Some [Parsed (user_record ''hello'' (Some ''2025-01-02T10:00'')),
                  Parsed (assistant_turn ''m1'' (Some ''claude-sonnet-4'') (Some ''2025-01-02T10:01'')
                            [(''input_tokens'', 3), (''output_tokens'', 7)])])] None)))) \<and>
   list_all attributed (scan_queries False
     (sample_env
        [sample_file ''s1'' (Some (17, 120))
           (Some [Parsed (user_record ''hello'' (Some ''2025-01-02T10:00'')),
                  Parsed (assistant_turn ''m1'' (Some ''claude-sonnet-4'') (Some ''2025-01-02T10:01'')
                            [(''input_tokens'', 3), (''output_tokens'', 7)])])] None)) \<and>
   totalTokens (totals (result (parse_all_sessions False
     (sample_env
        [sample_file ''s1'' (Some (17, 120))
           (Some [Parsed (user_record ''hello'' (Some ''2025-01-02T10:00'')),
                  Parsed (assistant_turn ''m1'' (Some ''claude-sonnet-4'') (Some ''2025-01-02T10:01'')
                            [(''input_tokens'', 3), (''output_tokens'', 7)])])] None)))) = 10 \<and>
   map d_totalTokens (dailyUsage (result (parse_all_sessions False
     (sample_env
        [sample_file ''s1'' (Some (17, 120))
           (Some [Parsed (user_record ''hello'' (Some ''2025-01-02T10:00'')),
                  Parsed (assistant_turn ''m1'' (Some ''claude-sonnet-4'') (Some ''2025-01-02T10:01'')
                            [(''input_tokens'', 3), (''output_tokens'', 7)])])] None)))) = [10] \<and>
   map mr_totalTokens (modelBreakdown (result (parse_all_sessions False
     (sample_env
        [sample_file ''s1'' (Some (17, 120))
           (Some [Parsed (user_record ''hello'' (Some ''2025-01-02T10:00'')),
                  Parsed (assistant_turn ''m1'' (Some ''claude-sonnet-4'') (Some ''2025-01-02T10:01'')
                            [(''input_tokens'', 3), (''output_tokens'', 7)])])] None)))) = [10]"
proof -
  let ?e = "sample_env
        [sample_file ''s1'' (Some (17, 120))
           (Some [Parsed (user_record ''hello'' (Some ''2025-01-02T10:00'')),
                  Parsed (assistant_turn ''m1'' (Some ''claude-sonnet-4'') (Some ''2025-01-02T10:01'')
                            [(''input_tokens'', 3), (''output_tokens'', 7)])])] None"
  let ?snap = "result (parse_all_sessions False ?e)"
  have k: "list_all known_date (sessions ?snap)"
    by (simp add: parse_all_sessions_result scan_eval extract_eval aggregate_eval known_date_def)
  have a: "list_all attributed (scan_queries False ?e)"
    by (simp add: scan_queries_def scan_eval extract_eval attributed_def)
  have d: "map d_totalTokens (dailyUsage ?snap) = [10]"
    by (simp add: parse_all_sessions_result scan_eval extract_eval aggregate_eval)
  have m: "map mr_totalTokens (modelBreakdown ?snap) = [10]"
    by (simp add: parse_all_sessions_result scan_eval extract_eval aggregate_eval)
  have t: "totalTokens (totals ?snap) = 10"
    using rollup_consistency [OF refl, of False ?e] k d by simp
  show ?thesis
    by (intro conjI k a d m t)
qed


section \<open>Properties of the incremental cache\<close>

lemma same_path_same_item:
  "distinct (map (\<lambda>pf. f_path (snd pf)) items) \<Longrightarrow> pf \<in> set items \<Longrightarrow> pg \<in> set items \<Longrightarrow>
   f_path (snd pf) = f_path (snd pg) \<Longrightarrow> pf = pg"
  by (auto simp: distinct_map dest: inj_onD)

lemma recorded_eq:
  "cache_key f = Some k \<Longrightarrow>
   recorded cache f = (case file_queries cache f of None \<Rightarrow> None | Some queries \<Rightarrow> Some (k, queries))"
  by (simp add: recorded_def)

lemma new_cache_lookup:
  assumes "distinct (map (\<lambda>pf. f_path (snd pf)) items)" "pf \<in> set items" "cache_key (snd pf) = Some k"
  shows "map_of (List.map_filter (\<lambda>pf. recorded cache (snd pf)) items) k = file_queries cache (snd pf)"
proof (cases "file_queries cache (snd pf)")
  case None
  have "k \<notin> fst ` set (List.map_filter (\<lambda>pf. recorded cache (snd pf)) items)"
  proof
    assume "k \<in> fst ` set (List.map_filter (\<lambda>pf. recorded cache (snd pf)) items)"
    then obtain pg qs where g: "pg \<in> set items" "recorded cache (snd pg) = Some (k, qs)"
      by (auto simp: List.map_filter_def)
    then have "cache_key (snd pg) = Some k" by (auto dest: recorded_key)
    with assms(3) have "f_path (snd pf) = f_path (snd pg)" by (rule cache_key_path)
    with assms g(1) have "pf = pg" by (auto dest: same_path_same_item)
    with g(2) None assms(3) show False by (simp add: recorded_eq)
  qed
  with None show ?thesis by (simp add: map_of_eq_None_iff)
next
  case (Some qs)
  with assms have "(k, qs) \<in> set (List.map_filter (\<lambda>pf. recorded cache (snd pf)) items)"
    by (force simp: List.map_filter_def recorded_eq)
  with distinct_recorded [OF assms(1), of cache] Some show ?thesis by simp
qed






lemma map_filter_cong:
  "(\<And>x. x \<in> set xs \<Longrightarrow> f x = g x) \<Longrightarrow> List.map_filter f xs = List.map_filter g xs"
  by (simp add: List.map_filter_def cong: map_cong filter_cong)

lemma file_queries_None:
  "file_queries cache f = None \<longleftrightarrow> cache_hit cache f = None \<and> parsed_queries f = None"
  by (simp add: file_queries_def split: option.splits)

lemma recorded_None:
  "recorded cache f = None \<longleftrightarrow> cache_key f = None \<or> file_queries cache f = None"
  by (simp add: recorded_def split: option.splits)

lemma rescan_file:
  assumes "distinct (map (\<lambda>pf. f_path (snd pf)) items)" "pf \<in> set items"
    and "new = List.map_filter (\<lambda>pf. recorded cache (snd pf)) items"
  shows "file_queries new (snd pf) = file_queries cache (snd pf) \<and>
         (cache_hit new (snd pf) = None \<longleftrightarrow> recorded cache (snd pf) = None)"
proof (cases "cache_key (snd pf)")
  case None
  then show ?thesis by (simp add: file_queries_def cache_hit_def recorded_def)
next
  case (Some k)
  have hit: "cache_hit new (snd pf) = file_queries cache (snd pf)"
    using new_cache_lookup [OF assms(1,2) Some, of cache] Some by (simp add: cache_hit_def assms(3))
  show ?thesis
  proof (cases "file_queries cache (snd pf)")
    case None
    then have "cache_hit cache (snd pf) = None \<and> parsed_queries (snd pf) = None"
      by (simp add: file_queries_None)
    with hit None Some show ?thesis
      by (simp add: recorded_None file_queries_def)
  next
    case (Some qs)
    with hit \<open>cache_key (snd pf) = Some k\<close> show ?thesis
      by (simp add: recorded_None file_queries_def)
  qed
qed

lemma scan_files_cache_file [simp]: "scan_files (e\<lparr>cache_file := c\<rparr>) = scan_files e"
  by (simp add: scan_files_def)

text \<open>
  C9, as the code has it. After a scan whose cache write succeeds, a second scan of the
  unchanged tree (not forced, reading the cache the first one wrote; paths pairwise
  distinct) returns the same snapshot. It parses exactly the files for which the first
  scan recorded no fingerprint: those whose \<^verbatim>\<open>stat\<close> fails, and those that missed the
  cache and whose parse raised or found no assistant record. When the first scan
  recorded a fingerprint for every file, the second parses no file.
\<close>

theorem rescan_unchanged:
  assumes "cache_writable e"
    and "distinct (map (\<lambda>pf. f_path (snd pf)) (scan_files e))"
    and "first = parse_all_sessions force_refresh e"
    and "second = parse_all_sessions False (e\<lparr>cache_file := cache_after first\<rparr>)"
  shows "result second = result first \<and>
         parsed_files second =
           map (\<lambda>pf. f_path (snd pf))
             (filter (\<lambda>pf. recorded (scan_cache force_refresh e) (snd pf) = None) (scan_files e)) \<and>
         (list_all (\<lambda>pf. recorded (scan_cache force_refresh e) (snd pf) \<noteq> None) (scan_files e) \<longrightarrow>
            parsed_files second = [])"
proof -
  let ?c = "scan_cache force_refresh e"
  let ?items = "scan_files e"
  let ?new = "List.map_filter (\<lambda>pf. recorded ?c (snd pf)) ?items"
  let ?e' = "e\<lparr>cache_file := cache_after first\<rparr>"
  have same: "file_queries (scan_cache False ?e') (snd pf) = file_queries ?c (snd pf) \<and>
              (cache_hit (scan_cache False ?e') (snd pf) = None \<longleftrightarrow> recorded ?c (snd pf) = None)"
    if "pf \<in> set ?items" for pf
  proof (cases "projects_dir e")
    case (Listing ds)
    with assms have "scan_cache False ?e' = ?new"
      by (simp add: parse_all_sessions_cache_after scan_cache_def load_cache_def)
    with rescan_file [OF assms(2) that refl, of ?c] show ?thesis by simp
  next
    case Absent
    with that show ?thesis by (simp add: scan_files_def)
  next
    case Unlistable
    with that show ?thesis by (simp add: scan_files_def)
  qed
  have "List.map_filter (emitted (scan_cache False ?e')) ?items = List.map_filter (emitted ?c) ?items"
    by (rule map_filter_cong) (simp add: emitted_def same)
  then have 1: "result second = result first"
    unfolding assms(3,4) by (simp add: parse_all_sessions_result)
  have "filter (\<lambda>pf. cache_hit (scan_cache False ?e') (snd pf) = None) ?items =
        filter (\<lambda>pf. recorded ?c (snd pf) = None) ?items"
    by (rule filter_cong) (simp_all add: same)
  then have 2: "parsed_files second =
      map (\<lambda>pf. f_path (snd pf)) (filter (\<lambda>pf. recorded ?c (snd pf) = None) ?items)"
    unfolding assms(4) by (simp add: parse_all_sessions_parsed_files)
  have 3: "parsed_files second = []"
    if "list_all (\<lambda>pf. recorded ?c (snd pf) \<noteq> None) ?items"
  proof -
    from that have "filter (\<lambda>pf. recorded ?c (snd pf) = None) ?items = []"
      by (simp add: list_all_iff filter_empty_conv)
    with 2 show ?thesis by simp
  qed
  from 1 2 3 show ?thesis by blast
qed

text \<open>
  A session of one prompt and one assistant turn, cold cache: the first scan parses the
  file, the second returns the same snapshot and parses nothing.
\<close>

theorem rescan_unchanged_witness:
  "cache_writable
     (sample_env
        [sample_file ''s1'' (Some (17, 120))
           (Some [Parsed (user_record ''hello'' (Some ''2025-01-02T10:00'')),
                  Parsed (assistant_turn ''m1'' (Some ''claude-sonnet-4'') (Some ''2025-01-02T10:01'')
                            [(''input_tokens'', 3), (''output_tokens'', 7)])])] None) \<and>
   parsed_files (parse_all_sessions False
     (sample_env
        [sample_file ''s1'' (Some (17, 120))
           (Some [Parsed (user_record ''hello'' (Some ''2025-01-02T10:00'')),
                  Parsed (assistant_turn ''m1'' (Some ''claude-sonnet-4'') (Some ''2025-01-02T10:01'')
                            [(''input_tokens'', 3), (''output_tokens'', 7)])])] None)) = [''p/s1.jsonl''] \<and>
   result (parse_all_sessions False
     ((sample_env
        [sample_file ''s1'' (Some (17, 120))
           (Some [Parsed (user_record ''hello'' (Some ''2025-01-02T10:00'')),
                  Parsed (assistant_turn ''m1'' (Some ''claude-sonnet-4'') (Some ''2025-01-02T10:01'')
                            [(''input_tokens'', 3), (''output_tokens'', 7)])])] None)
      \<lparr>cache_file := cache_after (parse_all_sessions False
         (sample_env
            [sample_file ''s1'' (Some (17, 120))
               (Some [Parsed (user_record ''hello'' (Some ''2025-01-02T10:00'')),
                      Parsed (assistant_turn ''m1'' (Some ''claude-sonnet-4'') (Some ''2025-01-02T10:01'')
                                [(''input_tokens'', 3), (''output_tokens'', 7)])])] None))\<rparr>)) =
   result (parse_all_sessions False
     (sample_env
        [sample_file ''s1'' (Some (17, 120))
           (Some [Parsed (user_record ''hello'' (Some ''2025-01-02T10:00'')),
                  Parsed (assistant_turn ''m1'' (Some ''claude-sonnet-4'') (Some ''2025-01-02T10:01'')
                            [(''input_tokens'', 3), (''output_tokens'', 7)])])] None)) \<and>
   parsed_files (parse_all_sessions False
     ((sample_env
        [sample_file ''s1'' (Some (17, 120))
           (Some [Parsed (user_record ''hello'' (Some ''2025-01-02T10:00'')),
                  Parsed (assistant_turn ''m1'' (Some ''claude-sonnet-4'') (Some ''2025-01-02T10:01'')
                            [(''input_tokens'', 3), (''output_tokens'', 7)])])] None)
      \<lparr>cache_file := cache_after (parse_all_sessions False
         (sample_env
            [sample_file ''s1'' (Some (17, 120))
               (Some [Parsed (user_record ''hello'' (Some ''2025-01-02T10:00'')),
                      Parsed (assistant_turn ''m1'' (Some ''claude-sonnet-4'') (Some ''2025-01-02T10:01'')
                                [(''input_tokens'', 3), (''output_tokens'', 7)])])] None))\<rparr>)) = []"
proof -
  let ?e = "sample_env
        [sample_file ''s1'' (Some (17, 120))
           (Some [Parsed (user_record ''hello'' (Some ''2025-01-02T10:00'')),
                  Parsed (assistant_turn ''m1'' (Some ''claude-sonnet-4'') (Some ''2025-01-02T10:01'')
                            [(''input_tokens'', 3), (''output_tokens'', 7)])])] None"
  have w: "cache_writable ?e" by (simp add: sample_env_def)
  have d: "distinct (map (\<lambda>pf. f_path (snd pf)) (scan_files ?e))"
    by (simp add: scan_eval)
  have la: "list_all (\<lambda>pf. recorded (scan_cache False ?e) (snd pf) \<noteq> None) (scan_files ?e)"
    by (simp add: scan_eval assistant_turn_def user_record_def)
  have p: "parsed_files (parse_all_sessions False ?e) = [''p/s1.jsonl'']"
    by (simp add: parse_all_sessions_parsed_files scan_eval)
  note r = rescan_unchanged [OF w d refl refl, of False]
  from r la have 1: "result (parse_all_sessions False (?e\<lparr>cache_file := cache_after (parse_all_sessions False ?e)\<rparr>)) =
      result (parse_all_sessions False ?e)"
    and 2: "parsed_files (parse_all_sessions False (?e\<lparr>cache_file := cache_after (parse_all_sessions False ?e)\<rparr>)) = []"
    by blast+
  show ?thesis by (intro conjI w p 1 2)
qed

text \<open>
  C9 as stated fails: a file that holds a user record only is parsed by the first scan
  and, unchanged and after a successful cache write, parsed again by the second.
\<close>

theorem rescan_counterexample:
  "cache_writable
     (sample_env [sample_file ''s1'' (Some (17, 120)) (Some [Parsed (user_record ''hello'' (Some ''10''))])]
        None) \<and>
   parsed_files (parse_all_sessions False
     ((sample_env [sample_file ''s1'' (Some (17, 120)) (Some [Parsed (user_record ''hello'' (Some ''10''))])]
        None)
      \<lparr>cache_file := cache_after (parse_all_sessions False
         (sample_env [sample_file ''s1'' (Some (17, 120)) (Some [Parsed (user_record ''hello'' (Some ''10''))])]
            None))\<rparr>)) = [''p/s1.jsonl'']"
proof -
  let ?e = "sample_env [sample_file ''s1'' (Some (17, 120)) (Some [Parsed (user_record ''hello'' (Some ''10''))])]
        None"
  have w: "cache_writable ?e" by (simp add: sample_env_def)
  have d: "distinct (map (\<lambda>pf. f_path (snd pf)) (scan_files ?e))"
    by (simp add: scan_eval)
  have c: "cache_after (parse_all_sessions False ?e) = Some []"
    using parse_all_sessions_cache_after [OF d, of False]
    by (simp add: scan_eval user_record_def)
  have p: "parsed_files (parse_all_sessions False (?e\<lparr>cache_file := cache_after (parse_all_sessions False ?e)\<rparr>)) =
      [''p/s1.jsonl'']"
    unfolding c by (simp add: parse_all_sessions_parsed_files scan_eval)
  show ?thesis by (intro conjI w p)
qed







end
